theory Spec2Isabelle
  imports Complex_Main "HOL-Library.Word"
begin

section \<open>BioSim: data model\<close>

text \<open>
  The C++ type \<open>double\<close> is modelled by \<open>real\<close>, \<open>unsigned int\<close> by 32-bit words,
  \<open>int\<close> by \<open>int\<close>.  A pointer to a \<open>Cell\<close> is the key of the cell in
  \<open>std::map<unsigned int,Cell> cells\<close> (the map never moves its elements), a pointer to
  an \<open>Animal\<close> is a natural number (its address), a pointer to a \<open>Species\<close> is the
  position of the species in \<open>std::list<Species> species\<close>.  The null pointer is
  \<open>None\<close>.
\<close>

type_synonym uint = "32 word"
type_synonym cell_ptr = "32 word"
type_synonym animal_ptr = nat
type_synonym species_ptr = nat

text \<open>
  \<open>RuntimeError\<close> is \<open>std::runtime_error\<close>.  The other three are the undefined
  behaviours the code can run into: dereferencing the null pointer, using an \<open>Animal\<close>
  that is not allocated (never created, or deleted), and using any other invalid pointer.
\<close>

datatype error = RuntimeError string | NullPointer | DanglingAnimal nat | BadPointer

fun bind_e :: "error + 'a \<Rightarrow> ('a \<Rightarrow> error + 'b) \<Rightarrow> error + 'b" where
  "bind_e (Inl e) f = Inl e"
| "bind_e (Inr x) f = f x"

definition ANIMAL_INV :: real where
  "ANIMAL_INV = - 1"

record Species =
  s_name :: string
  s_v_fod :: real
  s_beta :: real
  s_sigma :: real
  s_v_min :: real
  s_a_halv :: int
  s_phi_alder :: real
  s_v_halv_under :: real
  s_phi_under :: real
  s_v_halv_over :: real
  s_phi_over :: real
  s_mu :: real
  s_gamma :: real
  s_zeta :: real
  s_omega :: real
  s_F :: real
  s_DeltaPhiMax :: real
  predatory :: bool

record Animal =
  isa :: "species_ptr option"
  vekt :: real
  alder :: int
  loci :: "cell_ptr option"
  fitness_cache :: real

record ArchCell =
  ac_name :: char
  ac_alpha :: real
  ac_maxfeed :: real
  ac_live :: bool

record Cell =
  neighbours :: "cell_ptr option list"
  archetype :: "ArchCell option"
  feed :: real
  habitants :: "animal_ptr list"
  x_loc :: int
  y_loc :: int

text \<open>
  A \<open>std::set<Animal *>\<close> is the list of its elements in ascending order, which is the
  order its iterators visit them in.
\<close>

definition set_insert :: "animal_ptr \<Rightarrow> animal_ptr list \<Rightarrow> animal_ptr list" where
  "set_insert p xs = (if p \<in> set xs then xs else insort p xs)"

definition set_erase :: "animal_ptr \<Rightarrow> animal_ptr list \<Rightarrow> animal_ptr list" where
  "set_erase p xs = removeAll p xs"

record Map =
  m_rows :: uint
  m_cols :: uint
  cells :: "cell_ptr \<rightharpoonup> Cell"

text \<open>
  The random generator of \<open>toolbox/random.h\<close> is not part of the sources: \<open>drand()\<close>
  returns the next element of a stream of draws that the state carries.  The allocator
  hands out addresses in ascending order and never reuses one.
\<close>

record Simulation =
  geography :: Map
  species :: "Species list"
  heap :: "animal_ptr \<rightharpoonup> Animal"
  animals :: "animal_ptr list"
  next_ptr :: animal_ptr
  rand_draws :: "nat \<Rightarrow> real"
  rand_pos :: nat

definition drand :: "Simulation \<Rightarrow> real \<times> Simulation" where
  "drand s = (rand_draws s (rand_pos s), s\<lparr>rand_pos := Suc (rand_pos s)\<rparr>)"

section \<open>Animal.cpp: fitness and capture chance\<close>

definition func_q :: "real \<Rightarrow> real \<Rightarrow> real \<Rightarrow> bool \<Rightarrow> real" where
  "func_q x x_half phi pos =
     (let coeff = (if pos then 1 else - 1) in 1 / (1 + exp (coeff * phi * (x - x_half))))"

definition Species_fitness :: "Species \<Rightarrow> real \<Rightarrow> int \<Rightarrow> real" where
  "Species_fitness sp weight age =
     (if weight < s_v_min sp then 0
      else func_q (real_of_int age) (real_of_int (s_a_halv sp)) (s_phi_alder sp) True *
           func_q weight (s_v_halv_under sp) (s_phi_under sp) False *
           func_q weight (s_v_halv_over sp) (s_phi_over sp) True)"

text \<open>The local \<open>catch_chance\<close> of \<open>Animal::eat\<close>, as a function of the two fitness
  values and of \<open>isa->deltaPhiMax()\<close>.\<close>

definition catch_chance :: "real \<Rightarrow> real \<Rightarrow> real \<Rightarrow> real" where
  "catch_chance phi_pred phi_prey delta_phi_max =
     (let delta_phi = phi_pred - phi_prey in
      if phi_pred \<le> phi_prey then 0
      else if delta_phi_max > delta_phi \<and> delta_phi > 0 then delta_phi / delta_phi_max
      else 1)"


section \<open>Map.cpp: the grid\<close>

definition coordPack :: "uint \<Rightarrow> uint \<Rightarrow> uint" where
  "coordPack x y = push_bit 16 x + y"

definition coordUnpack :: "uint \<Rightarrow> uint \<times> uint" where
  "coordUnpack coord = (drop_bit 16 coord, and coord 0xFFFF)"

text \<open>\<open>Cell::Cell()\<close> leaves everything but the archetype uninitialised; the model
  takes zero and empty for those fields.\<close>

definition Cell_zombie :: Cell where
  "Cell_zombie = \<lparr>neighbours = [], archetype = None, feed = 0, habitants = [],
     x_loc = 0, y_loc = 0\<rparr>"

text \<open>\<open>Map::at(unsigned int)\<close>: \<open>&cells[coord]\<close> creates the cell when the key is new.\<close>

definition Map_at_coord :: "Map \<Rightarrow> uint \<Rightarrow> cell_ptr option \<times> Map" where
  "Map_at_coord m coord =
     (case cells m coord of
        Some c \<Rightarrow> (Some coord, m)
      | None \<Rightarrow> (Some coord, m\<lparr>cells := (cells m)(coord \<mapsto> Cell_zombie)\<rparr>))"

definition Map_at :: "Map \<Rightarrow> uint \<Rightarrow> uint \<Rightarrow> cell_ptr option \<times> Map" where
  "Map_at m x y =
     (if x \<ge> m_cols m \<or> y \<ge> m_rows m then (None, m)
      else Map_at_coord m (coordPack x y))"

definition candidatesAt :: "Map \<Rightarrow> uint \<Rightarrow> uint \<Rightarrow> cell_ptr option list \<times> Map" where
  "candidatesAt m x y =
     (let (n1, m1) = (if x = 0 then Map_at m x y else Map_at m (x - 1) y);
          (n2, m2) = (if y = 0 then Map_at m1 x y else Map_at m1 x (y - 1));
          (n3, m3) = (if x = m_cols m2 then Map_at m2 x y else Map_at m2 (x + 1) y);
          (n4, m4) = (if y = m_rows m3 then Map_at m3 x y else Map_at m3 x (y + 1))
      in ([n1, n2, n3, n4], m4))"

section \<open>Pointers\<close>

definition Cell_deref :: "Simulation \<Rightarrow> cell_ptr \<Rightarrow> error + Cell" where
  "Cell_deref s c = (case cells (geography s) c of None \<Rightarrow> Inl BadPointer | Some cell \<Rightarrow> Inr cell)"

definition Cell_store :: "Simulation \<Rightarrow> cell_ptr \<Rightarrow> Cell \<Rightarrow> Simulation" where
  "Cell_store s c cell = s\<lparr>geography := (geography s)\<lparr>cells := (cells (geography s))(c \<mapsto> cell)\<rparr>\<rparr>"

definition Animal_deref :: "Simulation \<Rightarrow> animal_ptr \<Rightarrow> error + Animal" where
  "Animal_deref s p = (case heap s p of None \<Rightarrow> Inl (DanglingAnimal p) | Some a \<Rightarrow> Inr a)"

definition Animal_store :: "Simulation \<Rightarrow> animal_ptr \<Rightarrow> Animal \<Rightarrow> Simulation" where
  "Animal_store s p a = s\<lparr>heap := (heap s)(p \<mapsto> a)\<rparr>"

definition Species_deref :: "Simulation \<Rightarrow> species_ptr option \<Rightarrow> error + Species" where
  "Species_deref s g =
     (case g of
        None \<Rightarrow> Inl NullPointer
      | Some i \<Rightarrow> if i < length (species s) then Inr (species s ! i) else Inl BadPointer)"

definition Archetype_deref :: "Cell \<Rightarrow> error + ArchCell" where
  "Archetype_deref cell = (case archetype cell of None \<Rightarrow> Inl NullPointer | Some a \<Rightarrow> Inr a)"

section \<open>Map.cpp: cells\<close>

text \<open>\<open>Cell::graze(double)\<close>\<close>

definition Cell_graze :: "Simulation \<Rightarrow> cell_ptr \<Rightarrow> real \<Rightarrow> error + (real \<times> Simulation)" where
  "Cell_graze s c ammount =
     bind_e (Cell_deref s c) (\<lambda>cell.
       if feed cell \<ge> ammount
       then Inr (ammount, Cell_store s c (cell\<lparr>feed := feed cell - ammount\<rparr>))
       else (let retval = feed cell in Inr (retval, Cell_store s c (cell\<lparr>feed := 0\<rparr>))))"

text \<open>\<open>Cell::addAnimal()\<close> and \<open>Cell::addAnimal(Animal *)\<close>\<close>

definition Cell_addAnimal0 :: "Simulation \<Rightarrow> cell_ptr \<Rightarrow> error + bool" where
  "Cell_addAnimal0 s c =
     bind_e (Cell_deref s c) (\<lambda>cell. bind_e (Archetype_deref cell) (\<lambda>arch. Inr (ac_live arch)))"

definition Cell_addAnimal :: "Simulation \<Rightarrow> cell_ptr \<Rightarrow> animal_ptr \<Rightarrow> error + (bool \<times> Simulation)" where
  "Cell_addAnimal s c beast =
     bind_e (Cell_deref s c) (\<lambda>cell.
     bind_e (Archetype_deref cell) (\<lambda>arch.
       if \<not> ac_live arch then Inr (False, s)
       else Inr (True, Cell_store s c (cell\<lparr>habitants := set_insert beast (habitants cell)\<rparr>))))"

definition Cell_removeAnimal :: "Simulation \<Rightarrow> cell_ptr \<Rightarrow> animal_ptr \<Rightarrow> error + Simulation" where
  "Cell_removeAnimal s c beast =
     bind_e (Cell_deref s c) (\<lambda>cell.
       Inr (Cell_store s c (cell\<lparr>habitants := set_erase beast (habitants cell)\<rparr>)))"

text \<open>\<open>Cell::animals()\<close>\<close>

definition Cell_animals :: "Simulation \<Rightarrow> cell_ptr \<Rightarrow> error + animal_ptr list" where
  "Cell_animals s c = bind_e (Cell_deref s c) (\<lambda>cell. Inr (habitants cell))"

text \<open>\<open>Cell::cellMates(Species *, bool)\<close>: the loop over \<open>habitants\<close>.\<close>

fun cellMates_loop :: "Simulation \<Rightarrow> species_ptr option \<Rightarrow> int \<Rightarrow> animal_ptr list \<Rightarrow> error + animal_ptr list" where
  "cellMates_loop s genus minAge [] = Inr []"
| "cellMates_loop s genus minAge (p # ps) =
     bind_e (Animal_deref s p) (\<lambda>a.
     bind_e (cellMates_loop s genus minAge ps) (\<lambda>retval.
       Inr (if isa a = genus \<and> alder a \<ge> minAge then p # retval else retval)))"

definition Cell_cellMates :: "Simulation \<Rightarrow> cell_ptr \<Rightarrow> species_ptr option \<Rightarrow> bool \<Rightarrow> error + animal_ptr list" where
  "Cell_cellMates s c genus breedersOnly =
     (let minAge = (if breedersOnly then 1 else 0) in
      bind_e (Cell_deref s c) (\<lambda>cell. cellMates_loop s genus minAge (habitants cell)))"

section \<open>Animal.cpp: animals\<close>

text \<open>\<open>Animal::moveTo\<close>\<close>

definition Animal_moveTo :: "Simulation \<Rightarrow> animal_ptr \<Rightarrow> cell_ptr option \<Rightarrow> error + (bool \<times> Simulation)" where
  "Animal_moveTo s this destination =
     (case destination of
        None \<Rightarrow> Inr (False, s)
      | Some d \<Rightarrow>
          bind_e (Cell_addAnimal s d this) (\<lambda>(added, s1).
            if added then
              bind_e (Animal_deref s1 this) (\<lambda>a.
              bind_e (if loci a \<noteq> None \<and> loci a \<noteq> Some d
                      then Cell_removeAnimal s1 (the (loci a)) this else Inr s1) (\<lambda>s2.
                Inr (True, Animal_store s2 this (a\<lparr>loci := Some d\<rparr>))))
            else Inr (False, s1)))"

text \<open>\<open>Animal::fitness\<close>, with its cache\<close>

definition Animal_fitness :: "Simulation \<Rightarrow> animal_ptr \<Rightarrow> error + (real \<times> Simulation)" where
  "Animal_fitness s this =
     bind_e (Animal_deref s this) (\<lambda>a.
       if fitness_cache a = ANIMAL_INV then
         bind_e (Species_deref s (isa a)) (\<lambda>sp.
           let f = Species_fitness sp (vekt a) (alder a)
           in Inr (f, Animal_store s this (a\<lparr>fitness_cache := f\<rparr>)))
       else Inr (fitness_cache a, s))"

text \<open>\<open>Animal::adjust\<close>, \<open>Animal::age\<close>, \<open>Animal::fatten\<close>\<close>

definition Animal_adjust :: "Simulation \<Rightarrow> animal_ptr \<Rightarrow> int \<Rightarrow> real \<Rightarrow> error + Simulation" where
  "Animal_adjust s this alder' vekt' =
     bind_e (Animal_deref s this) (\<lambda>a.
       Inr (Animal_store s this (a\<lparr>alder := alder', vekt := vekt', fitness_cache := ANIMAL_INV\<rparr>)))"

definition Species_weightloss :: "Species \<Rightarrow> real \<Rightarrow> real" where
  "Species_weightloss sp weight = s_sigma sp * weight"

definition Animal_age :: "Simulation \<Rightarrow> animal_ptr \<Rightarrow> error + Simulation" where
  "Animal_age s this =
     bind_e (Animal_deref s this) (\<lambda>a.
     bind_e (Species_deref s (isa a)) (\<lambda>sp.
       Inr (Animal_store s this
         (a\<lparr>alder := alder a + 1, vekt := vekt a - Species_weightloss sp (vekt a),
            fitness_cache := ANIMAL_INV\<rparr>))))"

definition Animal_fatten :: "Simulation \<Rightarrow> animal_ptr \<Rightarrow> real \<Rightarrow> error + Simulation" where
  "Animal_fatten s this delta_w =
     bind_e (Animal_deref s this) (\<lambda>a.
       Inr (Animal_store s this (a\<lparr>vekt := vekt a + delta_w, fitness_cache := ANIMAL_INV\<rparr>)))"

text \<open>\<open>Species::die\<close> and \<open>Animal::die\<close>\<close>

definition Species_die :: "Simulation \<Rightarrow> Species \<Rightarrow> real \<Rightarrow> bool \<times> Simulation" where
  "Species_die s sp beastPhi =
     (if beastPhi \<le> 0 then (True, s)
      else (let death = s_omega sp * (1 - beastPhi); (r, s1) = drand s in (r < death, s1)))"

definition Animal_die :: "Simulation \<Rightarrow> animal_ptr \<Rightarrow> error + (bool \<times> Simulation)" where
  "Animal_die s this =
     bind_e (Animal_deref s this) (\<lambda>a.
     bind_e (if vekt a = 0 then Inr (True, s)
             else bind_e (Animal_fitness s this) (\<lambda>(phi, s1).
                  bind_e (Species_deref s1 (isa a)) (\<lambda>sp. Inr (Species_die s1 sp phi)))) (\<lambda>(death, s2).
       if death then
         bind_e (Animal_deref s2 this) (\<lambda>a2.
         bind_e (if loci a2 \<noteq> None then Cell_removeAnimal s2 (the (loci a2)) this else Inr s2) (\<lambda>s3.
           Inr (death, Animal_store s3 this (a2\<lparr>loci := None\<rparr>))))
       else Inr (death, s2)))"


text \<open>Construction and destruction: \<open>new Animal(type, location)\<close> and
  \<open>delete\<close>, that is \<open>Animal::~Animal\<close> followed by the release of the object.\<close>

definition Animal_new :: "Simulation \<Rightarrow> species_ptr option \<Rightarrow> cell_ptr option \<Rightarrow> error + (animal_ptr \<times> Simulation)" where
  "Animal_new s type location =
     bind_e (Species_deref s type) (\<lambda>sp.
       let this = next_ptr s;
           s1 = (Animal_store s this
                  \<lparr>isa = type, vekt = s_v_fod sp, alder = 0, loci = None,
                   fitness_cache = ANIMAL_INV\<rparr>)\<lparr>next_ptr := Suc this\<rparr>
       in bind_e (Animal_moveTo s1 this location) (\<lambda>(moved, s2).
          bind_e (Animal_deref s2 this) (\<lambda>a.
            Inr (this, Animal_store s2 this
                   (a\<lparr>alder := 0, fitness_cache := Species_fitness sp (vekt a) 0\<rparr>)))))"

definition Animal_delete :: "Simulation \<Rightarrow> animal_ptr \<Rightarrow> error + Simulation" where
  "Animal_delete s this =
     bind_e (Animal_deref s this) (\<lambda>a.
     bind_e (if loci a \<noteq> None then Cell_removeAnimal s (the (loci a)) this else Inr s) (\<lambda>s1.
       Inr (s1\<lparr>heap := (heap s1)(this := None)\<rparr>)))"

text \<open>\<open>Species::birthloss\<close>, \<open>Species::canBreed\<close>, \<open>Species::birthChance\<close>,
  \<open>Animal::breed\<close>\<close>

definition Species_birthloss :: "Species \<Rightarrow> real" where
  "Species_birthloss sp = s_zeta sp * s_v_fod sp"

definition Species_canBreed :: "Species \<Rightarrow> real \<Rightarrow> bool" where
  "Species_canBreed sp weight = (weight \<ge> s_v_min sp + Species_birthloss sp)"

definition Species_birthChance :: "Simulation \<Rightarrow> Species \<Rightarrow> animal_ptr \<Rightarrow> int \<Rightarrow> error + (real \<times> Simulation)" where
  "Species_birthChance s sp beast largeN =
     bind_e (Animal_fitness s beast) (\<lambda>(phi, s1).
       Inr (phi * s_gamma sp * real_of_int (largeN - 1), s1))"

definition Animal_breed :: "Simulation \<Rightarrow> animal_ptr \<Rightarrow> error + (animal_ptr option \<times> Simulation)" where
  "Animal_breed s this =
     bind_e (Animal_deref s this) (\<lambda>a.
     bind_e (Species_deref s (isa a)) (\<lambda>sp.
       if alder a \<noteq> 0 \<and> Species_canBreed sp (vekt a) then
         (let s1 = Animal_store s this
                     (a\<lparr>vekt := vekt a - Species_birthloss sp, fitness_cache := ANIMAL_INV\<rparr>)
          in bind_e (Animal_new s1 (isa a) (loci a)) (\<lambda>(child, s2). Inr (Some child, s2)))
       else Inr (None, s)))"

text \<open>\<open>Animal::eat\<close>\<close>

definition Animal_eat :: "Simulation \<Rightarrow> animal_ptr \<Rightarrow> animal_ptr \<Rightarrow> error + (bool \<times> Simulation)" where
  "Animal_eat s this prey =
     bind_e (Animal_fitness s this) (\<lambda>(phi_pred, s1).
     bind_e (Animal_fitness s1 prey) (\<lambda>(phi_prey, s2).
     bind_e (Animal_deref s2 this) (\<lambda>a.
     bind_e (Species_deref s2 (isa a)) (\<lambda>sp.
       let delta_phi_max = s_DeltaPhiMax sp;
           (r, s3) = drand s2;
           eaten = (r < catch_chance phi_pred phi_prey delta_phi_max)
       in Inr (eaten, s3)))))"

text \<open>\<open>Species::feed\<close>: the loop over the cellmates of a predator, then the function.\<close>

fun feed_cellmates :: "Simulation \<Rightarrow> Species \<Rightarrow> animal_ptr \<Rightarrow> animal_ptr list \<Rightarrow> error + (animal_ptr list \<times> Simulation)" where
  "feed_cellmates s sp beast [] = Inr ([], s)"
| "feed_cellmates s sp beast (m # ms) =
     bind_e (Animal_deref s m) (\<lambda>mate.
     bind_e (Animal_deref s beast) (\<lambda>b.
     bind_e (if isa mate \<noteq> isa b \<and> vekt mate \<noteq> 0 then
               bind_e (Animal_eat s beast m) (\<lambda>(eaten, s1).
                 if eaten then
                   bind_e (Animal_deref s1 m) (\<lambda>mate1.
                   bind_e (Animal_fatten s1 beast (s_beta sp * vekt mate1)) (\<lambda>s2.
                     Inr ([m], s2)))
                 else Inr ([], s1))
             else Inr ([], s)) (\<lambda>(r1, s3).
     bind_e (feed_cellmates s3 sp beast ms) (\<lambda>(r2, s4). Inr (r1 @ r2, s4)))))"

definition Species_feed :: "Simulation \<Rightarrow> species_ptr \<Rightarrow> animal_ptr \<Rightarrow> error + (animal_ptr list \<times> Simulation)" where
  "Species_feed s this beast =
     bind_e (Species_deref s (Some this)) (\<lambda>sp.
     bind_e (Animal_deref s beast) (\<lambda>b.
       case loci b of
         None \<Rightarrow> Inl NullPointer
       | Some l \<Rightarrow>
           if predatory sp then
             bind_e (Cell_animals s l) (\<lambda>cellmates. feed_cellmates s sp beast cellmates)
           else
             bind_e (Cell_graze s l (s_F sp)) (\<lambda>(grass, s1).
             bind_e (Animal_fatten s1 beast (s_beta sp * grass)) (\<lambda>s2. Inr ([beast], s2)))))"

definition Animal_feed :: "Simulation \<Rightarrow> animal_ptr \<Rightarrow> error + (animal_ptr list \<times> Simulation)" where
  "Animal_feed s this =
     bind_e (Animal_deref s this) (\<lambda>a.
       case isa a of None \<Rightarrow> Inl NullPointer | Some g \<Rightarrow> Species_feed s g this)"

section \<open>Map.cpp: breeding in a cell\<close>

text \<open>\<open>Cell::breed\<close>: the inner loop over \<open>theseBeasts\<close>, the outer loop over
  \<open>genera\<close>.\<close>

fun breed_beasts :: "Simulation \<Rightarrow> species_ptr \<Rightarrow> int \<Rightarrow> animal_ptr list \<Rightarrow> error + (animal_ptr list \<times> Simulation)" where
  "breed_beasts s g largeN [] = Inr ([], s)"
| "breed_beasts s g largeN (b # bs) =
     bind_e (Species_deref s (Some g)) (\<lambda>sp.
     bind_e (Species_birthChance s sp b largeN) (\<lambda>(birthchance, s1).
       let (r, s2) = drand s1 in
       bind_e (if r < birthchance then Animal_breed s2 b else Inr (None, s2)) (\<lambda>(offspring, s3).
       bind_e (breed_beasts s3 g largeN bs) (\<lambda>(retval, s4).
         Inr ((case offspring of None \<Rightarrow> [] | Some child \<Rightarrow> [child]) @ retval, s4)))))"

fun Cell_breed :: "Simulation \<Rightarrow> cell_ptr \<Rightarrow> species_ptr list \<Rightarrow> error + (animal_ptr list \<times> Simulation)" where
  "Cell_breed s c [] = Inr ([], s)"
| "Cell_breed s c (g # genera) =
     bind_e (Cell_cellMates s c (Some g) False) (\<lambda>theseBeasts.
       let largeN = int (length theseBeasts) in
       bind_e (breed_beasts s g largeN theseBeasts) (\<lambda>(r1, s1).
       bind_e (Cell_breed s1 c genera) (\<lambda>(r2, s2). Inr (r1 @ r2, s2))))"

section \<open>BioSim.cpp: the simulation\<close>

text \<open>\<open>Simulation::genus\<close>: the first species of that name, or the null pointer.\<close>

fun genus_loop :: "Species list \<Rightarrow> string \<Rightarrow> species_ptr \<Rightarrow> species_ptr option" where
  "genus_loop [] typeName i = None"
| "genus_loop (sp # sps) typeName i =
     (if s_name sp = typeName then Some i else genus_loop sps typeName (Suc i))"

definition Simulation_genus :: "Simulation \<Rightarrow> string \<Rightarrow> species_ptr option" where
  "Simulation_genus s typeName = genus_loop (species s) typeName 0"

text \<open>\<open>Simulation::vivify(Species *, x, y)\<close>\<close>

definition Simulation_vivify :: "Simulation \<Rightarrow> species_ptr option \<Rightarrow> uint \<Rightarrow> uint \<Rightarrow> error + (animal_ptr option \<times> Simulation)" where
  "Simulation_vivify s archetype' x y =
     (let (locus, g1) = Map_at (geography s) x y;
          s1 = s\<lparr>geography := g1\<rparr>
      in case locus of
           None \<Rightarrow> Inr (None, s1)
         | Some l \<Rightarrow>
             bind_e (Cell_addAnimal0 s1 l) (\<lambda>ok.
               if \<not> ok then Inr (None, s1)
               else bind_e (Animal_new s1 archetype' locus) (\<lambda>(newBeast, s2).
                      Inr (Some newBeast, s2\<lparr>animals := set_insert newBeast (animals s2)\<rparr>))))"

text \<open>\<open>Simulation::insertAnimal(Species *, ...)\<close> and
  \<open>Simulation::insertAnimal(const std::string &, ...)\<close>\<close>

definition Simulation_insertAnimal :: "Simulation \<Rightarrow> species_ptr option \<Rightarrow> int \<Rightarrow> real \<Rightarrow> uint \<Rightarrow> uint \<Rightarrow> error + (animal_ptr option \<times> Simulation)" where
  "Simulation_insertAnimal s archetype' age weight x y =
     (if archetype' = None then Inr (None, s)
      else bind_e (Simulation_vivify s archetype' x y) (\<lambda>(newBeast, s1).
             case newBeast of
               None \<Rightarrow> Inr (None, s1)
             | Some p \<Rightarrow> bind_e (Animal_adjust s1 p age weight) (\<lambda>s2. Inr (Some p, s2))))"

definition Simulation_insertAnimal_name :: "Simulation \<Rightarrow> string \<Rightarrow> int \<Rightarrow> real \<Rightarrow> uint \<Rightarrow> uint \<Rightarrow> error + (animal_ptr option \<times> Simulation)" where
  "Simulation_insertAnimal_name s name' age weight x y =
     Simulation_insertAnimal s (Simulation_genus s name') age weight x y"

text \<open>
  \<open>Simulation::step\<close>, breeding: the loop over the cells that \<open>Map::mapMap\<close> returned
  (the shuffled list of the participating cells), with \<open>allSpecies\<close> the addresses of
  all species.
\<close>

fun breeding_pass :: "Simulation \<Rightarrow> species_ptr list \<Rightarrow> cell_ptr list \<Rightarrow> error + Simulation" where
  "breeding_pass s allSpecies [] = Inr s"
| "breeding_pass s allSpecies (c # cs) =
     bind_e (Cell_breed s c allSpecies) (\<lambda>(newBeasts, s1).
       breeding_pass (s1\<lparr>animals := fold set_insert newBeasts (animals s1)\<rparr>) allSpecies cs)"

text \<open>
  \<open>Simulation::step\<close>, sustenance: the loop over \<open>feedBeasts\<close>, the copy of
  \<open>animals\<close> after \<open>std::sort\<close> and \<open>std::stable_partition\<close>.  The counters
  \<open>pred\<close> and \<open>prey\<close> are only printed and are left out.
\<close>

fun erase_food :: "Simulation \<Rightarrow> animal_ptr list \<Rightarrow> error + Simulation" where
  "erase_food s [] = Inr s"
| "erase_food s (f # food) =
     bind_e (Animal_delete (s\<lparr>animals := set_erase f (animals s)\<rparr>) f) (\<lambda>s1. erase_food s1 food)"

fun feed_loop :: "Simulation \<Rightarrow> animal_ptr list \<Rightarrow> error + Simulation" where
  "feed_loop s [] = Inr s"
| "feed_loop s (fb # feedBeasts) =
     bind_e (Animal_feed s fb) (\<lambda>(food, s1).
       if length food = 1 \<and> food ! 0 = fb then feed_loop s1 feedBeasts
       else bind_e (erase_food s1 food) (\<lambda>s2. feed_loop s2 feedBeasts))"

section \<open>read\_parameters.h and \<open>Species::init\<close>\<close>

text \<open>
  A parameter file is modelled after tokenisation: the list of its entries, each a
  parameter name and the value that follows it.  A token is registered with the type of
  its target and, optionally, a default.  \<open>ReadParameters::read\<close> fails on a name that is
  not registered, on a second value for a token, on a value that the target's type cannot
  read, and, in \<open>write_target_\<close>, when a token without default was not read.
\<close>

datatype pvalue = PDouble real | PInt int | PString string

datatype ptype = TDouble | TInt | TString

fun pvalue_type :: "pvalue \<Rightarrow> ptype" where
  "pvalue_type (PDouble _) = TDouble"
| "pvalue_type (PInt _) = TInt"
| "pvalue_type (PString _) = TString"

type_synonym registry = "(string \<times> ptype \<times> pvalue option) list"

fun read_entries :: "registry \<Rightarrow> (string \<times> pvalue) list \<Rightarrow> (string \<rightharpoonup> pvalue) \<Rightarrow> error + (string \<rightharpoonup> pvalue)" where
  "read_entries reg [] vals = Inr vals"
| "read_entries reg ((pname, v) # rest) vals =
     (case map_of reg pname of
        None \<Rightarrow> Inl (RuntimeError (''ReadParameters::read(): unknown parameter name '' @ pname))
      | Some (ty, deflt) \<Rightarrow>
          if vals pname \<noteq> None
          then Inl (RuntimeError (''PlainToken::read(): '' @ pname @ '' has been read before.''))
          else if pvalue_type v \<noteq> ty
          then Inl (RuntimeError (''PlainToken::read(): Reading '' @ pname @ '' failed.''))
          else read_entries reg rest (vals(pname \<mapsto> v)))"

definition token_ready :: "(string \<rightharpoonup> pvalue) \<Rightarrow> string \<times> ptype \<times> pvalue option \<Rightarrow> bool" where
  "token_ready vals tok = (case tok of (pname, ty, deflt) \<Rightarrow> deflt \<noteq> None \<or> vals pname \<noteq> None)"

definition token_value :: "(string \<rightharpoonup> pvalue) \<Rightarrow> string \<times> ptype \<times> pvalue option \<Rightarrow> string \<times> pvalue" where
  "token_value vals tok =
     (case tok of (pname, ty, deflt) \<Rightarrow>
        (pname, case vals pname of Some v \<Rightarrow> v | None \<Rightarrow> the deflt))"

definition ReadParameters_read :: "registry \<Rightarrow> (string \<times> pvalue) list \<Rightarrow> error + (string \<rightharpoonup> pvalue)" where
  "ReadParameters_read reg entries =
     bind_e (read_entries reg entries Map.empty) (\<lambda>vals.
       if list_all (token_ready vals) reg
       then Inr (map_of (map (token_value vals) reg))
       else Inl (RuntimeError ''ReadParameters::read(): writing failed with message: ReadParameters::write_target_():not all parameters ready for writing.''))"

text \<open>The registrations of \<open>Species::Species\<close>.\<close>

definition Species_registry :: registry where
  "Species_registry =
     [(''v_fod'', TDouble, None), (''beta'', TDouble, None), (''sigma'', TDouble, None),
      (''v_min'', TDouble, None), (''a_halv'', TInt, None), (''phi_alder'', TDouble, None),
      (''v_halv_under'', TDouble, None), (''phi_under'', TDouble, None),
      (''v_halv_over'', TDouble, None), (''phi_over'', TDouble, None),
      (''mu'', TDouble, None), (''gamma'', TDouble, None), (''zeta'', TDouble, None),
      (''omega'', TDouble, None),
      (''F'', TDouble, Some (PDouble ANIMAL_INV)),
      (''DeltaPhiMax'', TDouble, Some (PDouble ANIMAL_INV)),
      (''Navn'', TString, Some (PString []))]"

fun the_double :: "pvalue option \<Rightarrow> real" where
  "the_double (Some (PDouble r)) = r"
| "the_double _ = 0"

fun the_int :: "pvalue option \<Rightarrow> int" where
  "the_int (Some (PInt i)) = i"
| "the_int _ = 0"

fun the_string :: "pvalue option \<Rightarrow> string" where
  "the_string (Some (PString n)) = n"
| "the_string _ = []"

text \<open>\<open>Species::init\<close>, on the entries of the file \<open>params\<close>.\<close>

definition Species_init :: "string \<Rightarrow> (string \<times> pvalue) list \<Rightarrow> error + Species" where
  "Species_init params entries =
     bind_e (ReadParameters_read Species_registry entries) (\<lambda>t.
       let F = the_double (t ''F'');
           DeltaPhiMax = the_double (t ''DeltaPhiMax'');
           name = the_string (t ''Navn'')
       in bind_e (if F \<noteq> ANIMAL_INV then Inr False
                  else if DeltaPhiMax \<noteq> ANIMAL_INV then Inr True
                  else Inl (RuntimeError (''Animal in '' @ params @ '' not fully defined.''))) (\<lambda>pred.
            Inr \<lparr>s_name = (if name = [] then (if pred then ''R'' else ''B'') else name),
                 s_v_fod = the_double (t ''v_fod''), s_beta = the_double (t ''beta''),
                 s_sigma = the_double (t ''sigma''), s_v_min = the_double (t ''v_min''),
                 s_a_halv = the_int (t ''a_halv''), s_phi_alder = the_double (t ''phi_alder''),
                 s_v_halv_under = the_double (t ''v_halv_under''),
                 s_phi_under = the_double (t ''phi_under''),
                 s_v_halv_over = the_double (t ''v_halv_over''),
                 s_phi_over = the_double (t ''phi_over''), s_mu = the_double (t ''mu''),
                 s_gamma = the_double (t ''gamma''), s_zeta = the_double (t ''zeta''),
                 s_omega = the_double (t ''omega''), s_F = F, s_DeltaPhiMax = DeltaPhiMax,
                 predatory = pred\<rparr>))"

section \<open>The names of the specification\<close>

text \<open>
  Functions that the specification names and the code writes inline or not at all: the
  death probability of \<open>Species::die\<close>, what a parameter file supplies, the value
  \<open>Animal::fitness\<close> returns, and the count of occupants of a species.
\<close>

definition deathProbability :: "Species \<Rightarrow> real \<Rightarrow> real" where
  "deathProbability sp phi = (if phi \<le> 0 then 1 else s_omega sp * (1 - phi))"

definition supplied :: "string \<Rightarrow> (string \<times> pvalue) list \<Rightarrow> bool" where
  "supplied pname entries = (pname \<in> set (map fst entries))"

text \<open>The value a file gives to a parameter of type \<open>double\<close> that defaults to
  \<open>ANIMAL_INV\<close>, and the name it gives to the species.\<close>

definition file_double :: "(string \<times> pvalue) list \<Rightarrow> string \<Rightarrow> real" where
  "file_double entries pname =
     (case map_of entries pname of Some (PDouble r) \<Rightarrow> r | _ \<Rightarrow> ANIMAL_INV)"

definition file_name :: "(string \<times> pvalue) list \<Rightarrow> string" where
  "file_name entries = (case map_of entries ''Navn'' of Some (PString n) \<Rightarrow> n | _ \<Rightarrow> [])"

text \<open>The value that \<open>Animal::fitness\<close> returns for an animal of species \<open>sp\<close>:
  the cached value, or the fitness of its weight and age when the cache is invalid.\<close>

definition fitness_of :: "Species \<Rightarrow> Animal \<Rightarrow> real" where
  "fitness_of sp a =
     (if fitness_cache a = ANIMAL_INV then Species_fitness sp (vekt a) (alder a)
      else fitness_cache a)"

text \<open>
  The number of occupants of a cell that are of a given species: the size of what
  \<open>Cell::cellMates\<close> returns.
\<close>

definition occupants :: "Simulation \<Rightarrow> cell_ptr \<Rightarrow> species_ptr \<Rightarrow> int" where
  "occupants s c g =
     (case Cell_cellMates s c (Some g) False of Inl e \<Rightarrow> 0 | Inr bs \<Rightarrow> int (length bs))"

text \<open>
  \<open>Cell::breed\<close> and the breeding loop of \<open>Simulation::step\<close> once more, as the
  specification words them: \<open>largeN\<close> is not counted when the species is reached but read
  from a table \<open>N\<close> of counts that is fixed for the pass.  Everything else is as in
  \<open>Cell_breed\<close> and \<open>breeding_pass\<close>.
\<close>

fun Cell_breed_N :: "(cell_ptr \<Rightarrow> species_ptr \<Rightarrow> int) \<Rightarrow> Simulation \<Rightarrow> cell_ptr \<Rightarrow> species_ptr list \<Rightarrow> error + (animal_ptr list \<times> Simulation)" where
  "Cell_breed_N N s c [] = Inr ([], s)"
| "Cell_breed_N N s c (g # genera) =
     bind_e (Cell_cellMates s c (Some g) False) (\<lambda>theseBeasts.
       let largeN = N c g in
       bind_e (breed_beasts s g largeN theseBeasts) (\<lambda>(r1, s1).
       bind_e (Cell_breed_N N s1 c genera) (\<lambda>(r2, s2). Inr (r1 @ r2, s2))))"

fun breeding_pass_N :: "(cell_ptr \<Rightarrow> species_ptr \<Rightarrow> int) \<Rightarrow> Simulation \<Rightarrow> species_ptr list \<Rightarrow> cell_ptr list \<Rightarrow> error + Simulation" where
  "breeding_pass_N N s allSpecies [] = Inr s"
| "breeding_pass_N N s allSpecies (c # cs) =
     bind_e (Cell_breed_N N s c allSpecies) (\<lambda>(newBeasts, s1).
       breeding_pass_N N (s1\<lparr>animals := fold set_insert newBeasts (animals s1)\<rparr>) allSpecies cs)"

section \<open>Invariants\<close>

text \<open>
  The mutual membership of cells and animals: every resident of a cell is an allocated
  animal whose location is that cell, and every allocated animal that has a location is a
  resident of the cell there.
\<close>

definition membership_inv :: "Simulation \<Rightarrow> bool" where
  "membership_inv s =
     ((\<forall>c cell p. cells (geography s) c = Some cell \<and> p \<in> set (habitants cell) \<longrightarrow>
         (\<exists>a. heap s p = Some a \<and> loci a = Some c)) \<and>
      (\<forall>p a c. heap s p = Some a \<and> loci a = Some c \<longrightarrow>
         (\<exists>cell. cells (geography s) c = Some cell \<and> p \<in> set (habitants cell))))"

text \<open>Residents are found in cells of participating terrain only: \<open>Cell::addAnimal\<close>
  is the one place that inserts into \<open>habitants\<close>.\<close>

definition inhabited_live :: "Simulation \<Rightarrow> bool" where
  "inhabited_live s =
     (\<forall>c cell. cells (geography s) c = Some cell \<and> habitants cell \<noteq> [] \<longrightarrow>
        (\<exists>arch. archetype cell = Some arch \<and> ac_live arch))"

text \<open>
  Every resident of a cell is an allocated animal whose location is that cell, at an
  address that the allocator has handed out already.
\<close>

definition breed_inv :: "Simulation \<Rightarrow> bool" where
  "breed_inv s =
     (\<forall>c cell p. cells (geography s) c = Some cell \<and> p \<in> set (habitants cell) \<longrightarrow>
        p < next_ptr s \<and> (\<exists>a. heap s p = Some a \<and> loci a = Some c))"

text \<open>
  What breeding of the species \<open>g\<close> in the cell \<open>c\<close> can change, from \<open>s\<close> to \<open>s'\<close>:
  the animals that exist keep species, age and location; the other cells are untouched;
  the residents of \<open>c\<close> are those of before, in their order, with newly allocated animals
  of species \<open>g\<close> located in \<open>c\<close> among them.
\<close>

definition traits :: "Simulation \<Rightarrow> animal_ptr \<Rightarrow> (species_ptr option \<times> int \<times> cell_ptr option) option" where
  "traits s p = map_option (\<lambda>a. (isa a, alder a, loci a)) (heap s p)"

definition births :: "cell_ptr \<Rightarrow> species_ptr \<Rightarrow> Simulation \<Rightarrow> Simulation \<Rightarrow> bool" where
  "births c g s s' =
     (next_ptr s \<le> next_ptr s' \<and>
      (\<forall>p. p < next_ptr s \<longrightarrow> traits s' p = traits s p) \<and>
      (\<forall>c'. c' \<noteq> c \<longrightarrow> cells (geography s') c' = cells (geography s) c') \<and>
      (cells (geography s) c = None \<longrightarrow> cells (geography s') c = None) \<and>
      (\<forall>cell. cells (geography s) c = Some cell \<longrightarrow>
         (\<exists>cell'. cells (geography s') c = Some cell' \<and>
            filter (\<lambda>p. p < next_ptr s) (habitants cell') = habitants cell \<and>
            (\<forall>p \<in> set (habitants cell'). next_ptr s \<le> p \<longrightarrow>
               p < next_ptr s' \<and>
               (\<exists>a. heap s' p = Some a \<and> isa a = Some g \<and> loci a = Some c)))))"

section \<open>Example inputs\<close>

text \<open>Two terrain types of \<open>Map::initArch\<close> and a map of two rows and two columns,
  as \<open>Map::init\<close> leaves it before the neighbours are set.\<close>

definition arch_J :: ArchCell where
  "arch_J = \<lparr>ac_name = CHR ''J'', ac_alpha = 1, ac_maxfeed = 6, ac_live = True\<rparr>"

definition arch_H :: ArchCell where
  "arch_H = \<lparr>ac_name = CHR ''H'', ac_alpha = 0, ac_maxfeed = 0, ac_live = False\<rparr>"

definition mk_cell :: "ArchCell \<Rightarrow> int \<Rightarrow> int \<Rightarrow> animal_ptr list \<Rightarrow> Cell" where
  "mk_cell type x y hs = \<lparr>neighbours = [], archetype = Some type, feed = ac_maxfeed type,
     habitants = hs, x_loc = x, y_loc = y\<rparr>"

definition map22 :: Map where
  "map22 = \<lparr>m_rows = 2, m_cols = 2,
     cells = [0 \<mapsto> mk_cell arch_J 0 0 [], 1 \<mapsto> mk_cell arch_H 0 1 [],
              65536 \<mapsto> mk_cell arch_J 1 0 [], 65537 \<mapsto> mk_cell arch_J 1 1 []]\<rparr>"

text \<open>A herbivore species and two predator species.  The steepness of every fitness
  term is zero in the first two, so that their fitness is \<open>1/8\<close> from the minimum
  weight on.\<close>

definition sp_B :: Species where
  "sp_B = \<lparr>s_name = ''B'', s_v_fod = 8, s_beta = 3/4, s_sigma = 1/4, s_v_min = 1,
     s_a_halv = 40, s_phi_alder = 0, s_v_halv_under = 10, s_phi_under = 0,
     s_v_halv_over = 60, s_phi_over = 0, s_mu = 1/4, s_gamma = 8, s_zeta = 1/2,
     s_omega = 2/5, s_F = 10, s_DeltaPhiMax = - 1, predatory = False\<rparr>"

definition sp_R :: Species where
  "sp_R = \<lparr>s_name = ''R'', s_v_fod = 6, s_beta = 3/4, s_sigma = 1/8, s_v_min = 1,
     s_a_halv = 60, s_phi_alder = 0, s_v_halv_under = 10, s_phi_under = 0,
     s_v_halv_over = 60, s_phi_over = 0, s_mu = 2/5, s_gamma = 4, s_zeta = 1/2,
     s_omega = 9/10, s_F = - 1, s_DeltaPhiMax = 1/16, predatory = True\<rparr>"

definition sp_R2 :: Species where
  "sp_R2 = \<lparr>s_name = ''R2'', s_v_fod = 6, s_beta = 3/4, s_sigma = 1/8, s_v_min = 1,
     s_a_halv = 0, s_phi_alder = 1, s_v_halv_under = 10, s_phi_under = 0,
     s_v_halv_over = 60, s_phi_over = 0, s_mu = 2/5, s_gamma = 4, s_zeta = 1/2,
     s_omega = 9/10, s_F = - 1, s_DeltaPhiMax = 1/16, predatory = True\<rparr>"

definition mk_animal :: "Species list \<Rightarrow> species_ptr \<Rightarrow> int \<Rightarrow> real \<Rightarrow> cell_ptr \<Rightarrow> Animal" where
  "mk_animal sps g age weight l = \<lparr>isa = Some g, vekt = weight, alder = age, loci = Some l,
     fitness_cache = Species_fitness (sps ! g) weight age\<rparr>"

text \<open>One herbivore of weight 20, alone in cell \<open>(0,0)\<close>, which holds 6 units of feed.\<close>

definition sim_graze :: Simulation where
  "sim_graze = \<lparr>geography = map22\<lparr>cells := (cells map22)(0 \<mapsto> mk_cell arch_J 0 0 [1])\<rparr>,
     species = [sp_B, sp_R],
     heap = [1 \<mapsto> mk_animal [sp_B, sp_R] 0 3 20 0],
     animals = [1], next_ptr = 2, rand_draws = (\<lambda>n. 0), rand_pos = 0\<rparr>"

text \<open>Parameter files: the fourteen mandatory parameters alone, with \<open>F = -1\<close>, with
  both \<open>F\<close> and \<open>DeltaPhiMax\<close>, and with \<open>DeltaPhiMax\<close> alone.\<close>

definition par_common :: "(string \<times> pvalue) list" where
  "par_common =
     [(''v_fod'', PDouble 8), (''beta'', PDouble (3/4)), (''sigma'', PDouble (1/4)),
      (''v_min'', PDouble 1), (''a_halv'', PInt 40), (''phi_alder'', PDouble (1/5)),
      (''v_halv_under'', PDouble 10), (''phi_under'', PDouble (1/10)),
      (''v_halv_over'', PDouble 60), (''phi_over'', PDouble (1/10)),
      (''mu'', PDouble (1/4)), (''gamma'', PDouble (1/5)), (''zeta'', PDouble (7/2)),
      (''omega'', PDouble (2/5))]"

definition par_sentinel :: "(string \<times> pvalue) list" where
  "par_sentinel = par_common @ [(''F'', PDouble (- 1))]"

definition par_both :: "(string \<times> pvalue) list" where
  "par_both = par_common @ [(''F'', PDouble 10), (''DeltaPhiMax'', PDouble (1/2))]"

definition par_pred :: "(string \<times> pvalue) list" where
  "par_pred = par_common @ [(''DeltaPhiMax'', PDouble (1/2))]"

text \<open>
  Two predators of different species in cell \<open>(0,0)\<close>, each of age 3 and weight 20:
  animal 5 of species \<open>sp_R\<close>, animal 7 of species \<open>sp_R2\<close>, whose fitness falls with
  the age.  Every draw is 0.
\<close>

definition pred_a :: Animal where
  "pred_a = mk_animal [sp_R, sp_R2] 0 3 20 0"

definition pred_b :: Animal where
  "pred_b = mk_animal [sp_R, sp_R2] 1 3 20 0"

definition sim_pred2 :: Simulation where
  "sim_pred2 = \<lparr>geography = map22\<lparr>cells := (cells map22)(0 \<mapsto> mk_cell arch_J 0 0 [5, 7])\<rparr>,
     species = [sp_R, sp_R2],
     heap = [5 \<mapsto> pred_a, 7 \<mapsto> pred_b],
     animals = [5, 7], next_ptr = 8, rand_draws = (\<lambda>n. 0), rand_pos = 0\<rparr>"

text \<open>Two herbivores of age 3 and weight 20 in cell \<open>(0,0)\<close>; every draw is 0.\<close>

definition herb :: Animal where
  "herb = mk_animal [sp_B] 0 3 20 0"

definition sim_breed :: Simulation where
  "sim_breed = \<lparr>geography = map22\<lparr>cells := (cells map22)(0 \<mapsto> mk_cell arch_J 0 0 [5, 7])\<rparr>,
     species = [sp_B],
     heap = [5 \<mapsto> herb, 7 \<mapsto> herb],
     animals = [5, 7], next_ptr = 8, rand_draws = (\<lambda>n. 0), rand_pos = 0\<rparr>"

section \<open>Fitness\<close>

lemma one_plus_exp_pos: "0 < 1 + exp (t::real)"
  by (rule add_pos_pos) simp_all

lemma func_q_pos: "0 < func_q x h phi pos"
  unfolding func_q_def Let_def by (rule divide_pos_pos) (simp_all add: one_plus_exp_pos)

lemma func_q_le1: "func_q x h phi pos \<le> 1"
  by (simp add: func_q_def Let_def divide_le_eq_1 one_plus_exp_pos)

lemma fitness_range: "0 \<le> Species_fitness sp w a \<and> Species_fitness sp w a \<le> 1"
proof (cases "w < s_v_min sp")
  case True
  then show ?thesis by (simp add: Species_fitness_def)
next
  case False
  have nn: "0 \<le> func_q x h p b" for x h p b
    using func_q_pos[of x h p b] by simp
  have "func_q (real_of_int a) (real_of_int (s_a_halv sp)) (s_phi_alder sp) True *
        func_q w (s_v_halv_under sp) (s_phi_under sp) False *
        func_q w (s_v_halv_over sp) (s_phi_over sp) True \<le> 1 * 1 * 1"
    by (intro mult_mono func_q_le1 nn mult_nonneg_nonneg) simp_all
  with False show ?thesis by (simp add: Species_fitness_def nn)
qed

lemma func_q_True_antimono:
  "0 \<le> phi \<Longrightarrow> x \<le> y \<Longrightarrow> func_q y h phi True \<le> func_q x h phi True"
  by (simp add: func_q_def Let_def frac_le add_pos_pos mult_left_mono)

lemma func_q_False_mono:
  "0 \<le> phi \<Longrightarrow> x \<le> y \<Longrightarrow> func_q x h phi False \<le> func_q y h phi False"
  by (simp add: func_q_def Let_def frac_le add_pos_pos mult_left_mono)

text \<open>
  C5, as stated, fails: the factor of the age is \<open>func_q age a_halv phi_alder true\<close>,
  which falls when the age grows and the steepness is positive.  For the species
  \<open>sp_R2\<close> (steepness 1, midpoint 0) the factor is smaller at age 1 than at age 0, and so
  is the fitness at equal weight.
\<close>

theorem fitness_age_factor_decreases:
  "func_q (real_of_int 1) (real_of_int (s_a_halv sp_R2)) (s_phi_alder sp_R2) True
     < func_q (real_of_int 0) (real_of_int (s_a_halv sp_R2)) (s_phi_alder sp_R2) True
   \<and> Species_fitness sp_R2 4 1 < Species_fitness sp_R2 4 0"
  using one_plus_exp_pos[of 1]
  by (simp add: Species_fitness_def sp_R2_def func_q_def Let_def divide_less_eq)

text \<open>
  C5, amended: the fitness is 0 below the minimum weight, and from there on the product
  of three logistic factors, of the age with sign \<open>+\<close>, of the weight with sign \<open>-\<close>
  (underweight) and of the weight with sign \<open>+\<close> (overweight); it lies between 0 and 1.
  For a steepness that is not negative the factor of the age does not grow with the age,
  the underweight factor does not fall with the weight and the overweight factor does not
  grow with the weight.
\<close>

theorem fitness_product:
  "Species_fitness sp weight age =
     (if weight < s_v_min sp then 0
      else 1 / (1 + exp (s_phi_alder sp * (real_of_int age - real_of_int (s_a_halv sp)))) *
           (1 / (1 + exp (- (s_phi_under sp * (weight - s_v_halv_under sp))))) *
           (1 / (1 + exp (s_phi_over sp * (weight - s_v_halv_over sp)))))
   \<and> 0 \<le> Species_fitness sp weight age \<and> Species_fitness sp weight age \<le> 1
   \<and> (0 \<le> s_phi_alder sp \<and> age \<le> age' \<longrightarrow>
        func_q (real_of_int age') (real_of_int (s_a_halv sp)) (s_phi_alder sp) True
          \<le> func_q (real_of_int age) (real_of_int (s_a_halv sp)) (s_phi_alder sp) True)
   \<and> (0 \<le> s_phi_under sp \<and> weight \<le> weight' \<longrightarrow>
        func_q weight (s_v_halv_under sp) (s_phi_under sp) False
          \<le> func_q weight' (s_v_halv_under sp) (s_phi_under sp) False)
   \<and> (0 \<le> s_phi_over sp \<and> weight \<le> weight' \<longrightarrow>
        func_q weight' (s_v_halv_over sp) (s_phi_over sp) True
          \<le> func_q weight (s_v_halv_over sp) (s_phi_over sp) True)"
  using fitness_range[of sp weight age]
  by (simp add: func_q_True_antimono func_q_False_mono)
    (simp add: Species_fitness_def func_q_def)

theorem fitness_product_witness:
  "Species_fitness sp_R2 4 0 = 1 / (1 + exp 0) * (1 / (1 + exp 0)) * (1 / (1 + exp 0))
   \<and> Species_fitness sp_R2 (1/2) 0 = 0
   \<and> func_q 1 0 1 True \<le> func_q 0 0 1 True
   \<and> func_q 4 10 0 False \<le> func_q 5 10 0 False
   \<and> func_q 5 60 0 True \<le> func_q 4 60 0 True"
  using fitness_product[of sp_R2 4 0 1 5] fitness_product[of sp_R2 "1/2" 0 1 5]
  by (simp add: sp_R2_def)

section \<open>Capture chance\<close>

text \<open>
  C6: for \<open>deltaPhiMax > 0\<close> the capture chance that \<open>Animal::eat\<close> computes is 0 when
  the fitness of the predator is at most that of the prey, the difference divided by
  \<open>deltaPhiMax\<close> when the difference lies strictly between 0 and \<open>deltaPhiMax\<close>, and 1
  when the difference is \<open>deltaPhiMax\<close> or more.
\<close>

theorem catch_chance_cases:
  "0 < d \<Longrightarrow>
   (p \<le> q \<longrightarrow> catch_chance p q d = 0) \<and>
   (0 < p - q \<and> p - q < d \<longrightarrow> catch_chance p q d = (p - q) / d) \<and>
   (d \<le> p - q \<longrightarrow> catch_chance p q d = 1)"
  by (auto simp: catch_chance_def Let_def)

theorem catch_chance_cases_witness:
  "catch_chance (9/10) (9/10) 10 = 0 \<and> catch_chance (1/2) (1/4) (1/2) = (1/2 - 1/4) / (1/2)
   \<and> catch_chance (9/10) (1/10) (1/2) = 1"
  using catch_chance_cases[of 10 "9/10" "9/10"] catch_chance_cases[of "1/2" "1/2" "1/4"]
    catch_chance_cases[of "1/2" "9/10" "1/10"]
  by simp

section \<open>Grazing\<close>

text \<open>
  C7: a herbivore of a species with feed desire \<open>F\<close>, in a cell that holds \<open>f \<ge> 0\<close>,
  is granted \<open>min f F\<close>; the cell is left with \<open>f - min f F\<close>, which is not negative,
  and the weight of the animal grows by \<open>beta * min f F\<close>.
\<close>

theorem herbivore_feed:
  assumes "Species_deref s (Some g) = Inr sp" and "\<not> predatory sp"
    and "heap s beast = Some b" and "loci b = Some l"
    and "cells (geography s) l = Some cell" and "0 \<le> feed cell"
  shows "Cell_graze s l (s_F sp) =
           Inr (min (feed cell) (s_F sp),
                Cell_store s l (cell\<lparr>feed := feed cell - min (feed cell) (s_F sp)\<rparr>))
       \<and> Species_feed s g beast =
           Inr ([beast],
                Animal_store (Cell_store s l (cell\<lparr>feed := feed cell - min (feed cell) (s_F sp)\<rparr>))
                  beast (b\<lparr>vekt := vekt b + s_beta sp * min (feed cell) (s_F sp),
                           fitness_cache := ANIMAL_INV\<rparr>))
       \<and> 0 \<le> feed cell - min (feed cell) (s_F sp)"
proof -
  have g: "Cell_graze s l (s_F sp) =
           Inr (min (feed cell) (s_F sp),
                Cell_store s l (cell\<lparr>feed := feed cell - min (feed cell) (s_F sp)\<rparr>))"
    using assms(5) by (simp add: Cell_graze_def Cell_deref_def min_def Let_def)
  have h: "heap (Cell_store s l c') beast = Some b" for c'
    using assms(3) by (simp add: Cell_store_def)
  show ?thesis
    using assms(1,2,3,4,6) g h
    by (simp add: Species_feed_def Animal_deref_def Animal_fatten_def)
qed

text \<open>The scenario of the specification: \<open>F = 10\<close> and 6 units of feed in the cell.\<close>

theorem herbivore_feed_witness:
  "(case Species_feed sim_graze 0 1 of
      Inl e \<Rightarrow> False
    | Inr (food, s') \<Rightarrow> food = [1]
        \<and> map_option feed (cells (geography s') 0) = Some 0
        \<and> map_option vekt (heap s' 1) = Some (20 + 3/4 * 6))"
  using herbivore_feed[of sim_graze 0 sp_B 1 "mk_animal [sp_B, sp_R] 0 3 20 0" 0 "mk_cell arch_J 0 0 [1]"]
  by (simp add: sim_graze_def Species_deref_def sp_B_def mk_animal_def mk_cell_def arch_J_def
      Cell_store_def Animal_store_def)

section \<open>Neighbours\<close>

lemma Map_at_fst:
  "fst (Map_at m x y) = (if x \<ge> m_cols m \<or> y \<ge> m_rows m then None else Some (coordPack x y))"
  by (simp add: Map_at_def Map_at_coord_def split: option.splits)

lemma Map_at_dims:
  "m_cols (snd (Map_at m x y)) = m_cols m \<and> m_rows (snd (Map_at m x y)) = m_rows m"
  by (simp add: Map_at_def Map_at_coord_def split: option.splits)

text \<open>
  C1 fails on the code.  On the map of two rows and two columns the cell \<open>(1,0)\<close> of the
  last column gets the null pointer as its east neighbour, the cell \<open>(0,1)\<close> of the last
  row gets the null pointer as its south neighbour, and the corner \<open>(1,1)\<close> gets both;
  the claim, like the comment of \<open>Map::candidatesAt\<close>, has the cell itself there.
\<close>

theorem candidatesAt_high_edges:
  "fst (candidatesAt map22 1 0) =
     [Some (coordPack 0 0), Some (coordPack 1 0), None, Some (coordPack 1 1)]
   \<and> fst (candidatesAt map22 0 1) =
     [Some (coordPack 0 1), Some (coordPack 0 0), Some (coordPack 1 1), None]
   \<and> fst (candidatesAt map22 1 1) =
     [Some (coordPack 0 1), Some (coordPack 1 0), None, None]"
  by (simp add: candidatesAt_def Let_def split_beta Map_at_fst Map_at_dims map22_def
      word_le_nat_alt)

text \<open>What \<open>Map::candidatesAt\<close> returns for a cell of the grid: the cell itself at the
  low edges, the null pointer at the high edges, the adjacent cell elsewhere.\<close>

lemma candidatesAt_fst:
  assumes "x < m_cols m" and "y < m_rows m"
  shows "fst (candidatesAt m x y) =
      [Some (if x = 0 then coordPack x y else coordPack (x - 1) y),
       Some (if y = 0 then coordPack x y else coordPack x (y - 1)),
       (if x + 1 = m_cols m then None else Some (coordPack (x + 1) y)),
       (if y + 1 = m_rows m then None else Some (coordPack x (y + 1)))]"
proof -
  have x1: "x \<noteq> 0 \<Longrightarrow> \<not> m_cols m \<le> x - 1" using assms(1) by unat_arith
  have y1: "y \<noteq> 0 \<Longrightarrow> \<not> m_rows m \<le> y - 1" using assms(2) by unat_arith
  have x2: "(m_cols m \<le> x + 1) = (x + 1 = m_cols m)" using assms(1) by unat_arith
  have y2: "(m_rows m \<le> y + 1) = (y + 1 = m_rows m)" using assms(2) by unat_arith
  have nx: "x \<noteq> m_cols m" "\<not> m_cols m \<le> x" using assms(1) by auto
  have ny: "y \<noteq> m_rows m" "\<not> m_rows m \<le> y" using assms(2) by auto
  show ?thesis
    using x1 y1 nx ny x2 y2
    by (cases "x = 0"; cases "y = 0";
        simp add: candidatesAt_def Let_def split_beta Map_at_fst Map_at_dims)
qed

section \<open>Species initialisation\<close>

lemma read_entries_step:
  assumes "read_entries reg ((n, v) # es) acc = Inr vals"
  shows "\<exists>d. map_of reg n = Some (pvalue_type v, d)" and "acc n = None"
    and "read_entries reg es (acc(n \<mapsto> v)) = Inr vals"
  using assms by (auto split: option.splits if_splits)

lemma read_entries_fresh:
  "read_entries reg es acc = Inr vals \<Longrightarrow> acc n \<noteq> None \<Longrightarrow> map_of es n = None"
proof (induction es arbitrary: acc)
  case Nil
  then show ?case by simp
next
  case (Cons e es)
  obtain m u where e: "e = (m, u)" by (cases e)
  note st = read_entries_step[OF Cons.prems(1)[unfolded e]]
  have "m \<noteq> n" using st(2) Cons.prems(2) by auto
  moreover have "map_of es n = None"
    using Cons.IH[OF st(3)] Cons.prems(2) by simp
  ultimately show ?case by (simp add: e)
qed

lemma read_entries_vals:
  "read_entries reg es acc = Inr vals \<Longrightarrow> vals = acc ++ map_of es"
proof (induction es arbitrary: acc)
  case Nil
  then show ?case by simp
next
  case (Cons e es)
  obtain m u where e: "e = (m, u)" by (cases e)
  note st = read_entries_step[OF Cons.prems(1)[unfolded e]]
  have nodup: "map_of es m = None"
    using read_entries_fresh[OF st(3), of m] by simp
  have "vals = acc(m \<mapsto> u) ++ map_of es" by (rule Cons.IH[OF st(3)])
  also have "\<dots> = acc ++ map_of (e # es)"
    using nodup by (auto simp: e map_add_def fun_eq_iff split: option.splits)
  finally show ?case .
qed

lemma read_entries_types:
  "read_entries reg es acc = Inr vals \<Longrightarrow> map_of es n = Some v \<Longrightarrow>
     \<exists>d. map_of reg n = Some (pvalue_type v, d)"
proof (induction es arbitrary: acc)
  case Nil
  then show ?case by simp
next
  case (Cons e es)
  obtain m u where e: "e = (m, u)" by (cases e)
  note st = read_entries_step[OF Cons.prems(1)[unfolded e]]
  show ?case
  proof (cases "n = m")
    case True
    then show ?thesis using st(1) Cons.prems(2) by (simp add: e)
  next
    case False
    then show ?thesis using Cons.IH[OF st(3)] Cons.prems(2) by (simp add: e)
  qed
qed

lemma ReadParameters_read_Species:
  assumes "ReadParameters_read Species_registry entries = Inr t"
  shows "the_double (t ''F'') = file_double entries ''F''"
    and "the_double (t ''DeltaPhiMax'') = file_double entries ''DeltaPhiMax''"
    and "the_string (t ''Navn'') = file_name entries"
proof -
  from assms obtain vals where
    r: "read_entries Species_registry entries Map.empty = Inr vals"
    and t: "t = map_of (map (token_value vals) Species_registry)"
    by (auto simp: ReadParameters_read_def split: sum.splits if_splits
        elim!: bind_e.elims)
  have vals: "vals = map_of entries" using read_entries_vals[OF r] by simp
  have ty: "map_of entries n = Some v \<Longrightarrow>
     \<exists>d. map_of Species_registry n = Some (pvalue_type v, d)" for n v
    by (rule read_entries_types[OF r])
  have F: "map_of entries ''F'' = Some v \<Longrightarrow> \<exists>r. v = PDouble r" for v
    using ty[of "''F''" v] by (cases v) (simp_all add: Species_registry_def)
  have D: "map_of entries ''DeltaPhiMax'' = Some v \<Longrightarrow> \<exists>r. v = PDouble r" for v
    using ty[of "''DeltaPhiMax''" v] by (cases v) (simp_all add: Species_registry_def)
  have N: "map_of entries ''Navn'' = Some v \<Longrightarrow> \<exists>r. v = PString r" for v
    using ty[of "''Navn''" v] by (cases v) (simp_all add: Species_registry_def)
  show "the_double (t ''F'') = file_double entries ''F''"
    using F by (auto simp: t vals Species_registry_def token_value_def file_double_def
        split: option.splits)
  show "the_double (t ''DeltaPhiMax'') = file_double entries ''DeltaPhiMax''"
    using D by (auto simp: t vals Species_registry_def token_value_def file_double_def
        split: option.splits)
  show "the_string (t ''Navn'') = file_name entries"
    using N by (auto simp: t vals Species_registry_def token_value_def file_name_def
        split: option.splits)
qed


lemma file_double_sentinel:
  assumes "ReadParameters_read Species_registry entries = Inr t"
    and "pname = ''F'' \<or> pname = ''DeltaPhiMax''"
  shows "(file_double entries pname = ANIMAL_INV) =
         (\<not> supplied pname entries \<or> map_of entries pname = Some (PDouble ANIMAL_INV))"
proof -
  from assms obtain vals where
    r: "read_entries Species_registry entries Map.empty = Inr vals"
    by (auto simp: ReadParameters_read_def elim!: bind_e.elims)
  have ty: "map_of entries pname = Some v \<Longrightarrow> \<exists>r. v = PDouble r" for v
    using read_entries_types[OF r, of pname v] assms(2)
    by (cases v) (auto simp: Species_registry_def)
  have sup: "supplied pname entries = (map_of entries pname \<noteq> None)"
    by (simp add: supplied_def map_of_eq_None_iff)
  show ?thesis
    using ty by (cases "map_of entries pname") (auto simp: file_double_def sup)
qed

text \<open>
  C10, amended.  For a parameter file that the reader accepts (every name registered and
  given once, every value readable, every mandatory parameter present), \<open>Species::init\<close>
  raises an error if and only if each of \<open>F\<close> and \<open>DeltaPhiMax\<close> is either not supplied or
  supplied as \<open>-1\<close>, the value of \<open>ANIMAL_INV\<close>.  When it succeeds the species is a
  herbivore exactly when \<open>F\<close> is supplied with another value than \<open>-1\<close>, whatever
  \<open>DeltaPhiMax\<close> is; both values are retained; and a species without a name, or with the
  empty name, is named \<open>R\<close> when predatory and \<open>B\<close> otherwise.
\<close>

theorem Species_init_cases:
  assumes "ReadParameters_read Species_registry entries = Inr t"
  shows "isl (Species_init params entries) =
           ((\<not> supplied ''F'' entries \<or> map_of entries ''F'' = Some (PDouble ANIMAL_INV)) \<and>
            (\<not> supplied ''DeltaPhiMax'' entries \<or>
               map_of entries ''DeltaPhiMax'' = Some (PDouble ANIMAL_INV)))
       \<and> (\<forall>sp. Species_init params entries = Inr sp \<longrightarrow>
             predatory sp = (file_double entries ''F'' = ANIMAL_INV) \<and>
             s_F sp = file_double entries ''F'' \<and>
             s_DeltaPhiMax sp = file_double entries ''DeltaPhiMax'' \<and>
             s_name sp = (if file_name entries = [] then (if predatory sp then ''R'' else ''B'')
                          else file_name entries))"
proof -
  note rd = ReadParameters_read_Species[OF assms]
  have "isl (Species_init params entries) =
          (file_double entries ''F'' = ANIMAL_INV \<and> file_double entries ''DeltaPhiMax'' = ANIMAL_INV)"
    by (simp add: Species_init_def assms rd Let_def)
  moreover have "\<forall>sp. Species_init params entries = Inr sp \<longrightarrow>
             predatory sp = (file_double entries ''F'' = ANIMAL_INV) \<and>
             s_F sp = file_double entries ''F'' \<and>
             s_DeltaPhiMax sp = file_double entries ''DeltaPhiMax'' \<and>
             s_name sp = (if file_name entries = [] then (if predatory sp then ''R'' else ''B'')
                          else file_name entries)"
    by (auto simp: Species_init_def assms rd Let_def split: if_splits)
  ultimately show ?thesis
    using file_double_sentinel[OF assms, of "''F''"]
      file_double_sentinel[OF assms, of "''DeltaPhiMax''"]
    by simp
qed


lemma read_par_both0:
  "read_entries Species_registry par_both Map.empty = Inr (map_of par_both)"
  by (simp add: par_both_def par_common_def Species_registry_def fun_eq_iff)

lemma ready_par_both: "list_all (token_ready (map_of par_both)) Species_registry"
  by (simp add: par_both_def par_common_def Species_registry_def token_ready_def)

lemma read_par_both:
  "ReadParameters_read Species_registry par_both =
     Inr (map_of (map (token_value (map_of par_both)) Species_registry))"
  by (simp add: ReadParameters_read_def read_par_both0 ready_par_both)


lemma read_par_pred0:
  "read_entries Species_registry par_pred Map.empty = Inr (map_of par_pred)"
  by (simp add: par_pred_def par_common_def Species_registry_def fun_eq_iff)

lemma ready_par_pred: "list_all (token_ready (map_of par_pred)) Species_registry"
  by (simp add: par_pred_def par_common_def Species_registry_def token_ready_def)

lemma read_par_pred:
  "ReadParameters_read Species_registry par_pred =
     Inr (map_of (map (token_value (map_of par_pred)) Species_registry))"
  by (simp add: ReadParameters_read_def read_par_pred0 ready_par_pred)

lemma read_par_common0:
  "read_entries Species_registry par_common Map.empty = Inr (map_of par_common)"
  by (simp add: par_common_def Species_registry_def fun_eq_iff)

lemma ready_par_common: "list_all (token_ready (map_of par_common)) Species_registry"
  by (simp add: par_common_def Species_registry_def token_ready_def)

lemma read_par_common:
  "ReadParameters_read Species_registry par_common =
     Inr (map_of (map (token_value (map_of par_common)) Species_registry))"
  by (simp add: ReadParameters_read_def read_par_common0 ready_par_common)

lemma par_lookups:
  "map_of par_both ''F'' = Some (PDouble 10)"
  "map_of par_both ''DeltaPhiMax'' = Some (PDouble (1/2))"
  "map_of par_both ''Navn'' = None"
  "map_of par_pred ''F'' = None"
  "map_of par_pred ''DeltaPhiMax'' = Some (PDouble (1/2))"
  "map_of par_pred ''Navn'' = None"
  "map_of par_common ''F'' = None"
  "map_of par_common ''DeltaPhiMax'' = None"
  by (simp_all add: par_both_def par_pred_def par_common_def)

lemma par_supplied:
  "supplied ''F'' par_both" "supplied ''DeltaPhiMax'' par_both"
  "\<not> supplied ''F'' par_pred" "supplied ''DeltaPhiMax'' par_pred"
  "\<not> supplied ''F'' par_common" "\<not> supplied ''DeltaPhiMax'' par_common"
  by (simp_all add: supplied_def par_both_def par_pred_def par_common_def)

text \<open>A file with both parameters gives the herbivore \<open>B\<close>, a file with
  \<open>DeltaPhiMax\<close> alone the predator \<open>R\<close>, a file with neither an error.\<close>

theorem Species_init_cases_witness:
  "(case Species_init ''art.par'' par_both of
      Inl e \<Rightarrow> False
    | Inr sp \<Rightarrow> \<not> predatory sp \<and> s_F sp = 10 \<and> s_DeltaPhiMax sp = 1/2 \<and> s_name sp = ''B'')
   \<and> (case Species_init ''art.par'' par_pred of
      Inl e \<Rightarrow> False
    | Inr sp \<Rightarrow> predatory sp \<and> s_name sp = ''R'')
   \<and> isl (Species_init ''art.par'' par_common)"
proof -
  note b = Species_init_cases[OF read_par_both, of "''art.par''"]
  note p = Species_init_cases[OF read_par_pred, of "''art.par''"]
  note c = Species_init_cases[OF read_par_common, of "''art.par''"]
  have fd: "file_double par_both ''F'' = 10" "file_double par_both ''DeltaPhiMax'' = 1/2"
    "file_name par_both = []" "file_double par_pred ''F'' = ANIMAL_INV"
    "file_name par_pred = []"
    by (simp_all add: file_double_def file_name_def par_lookups)
  have b1: "\<not> isl (Species_init ''art.par'' par_both)"
    using b by (simp add: par_supplied par_lookups ANIMAL_INV_def)
  have p1: "\<not> isl (Species_init ''art.par'' par_pred)"
    using p by (simp add: par_supplied par_lookups ANIMAL_INV_def)
  have c1: "isl (Species_init ''art.par'' par_common)"
    using c by (simp add: par_supplied)
  from b1 obtain sb where sb: "Species_init ''art.par'' par_both = Inr sb"
    by (cases "Species_init ''art.par'' par_both") auto
  from p1 obtain sp where sp: "Species_init ''art.par'' par_pred = Inr sp"
    by (cases "Species_init ''art.par'' par_pred") auto
  have "\<not> predatory sb \<and> s_F sb = 10 \<and> s_DeltaPhiMax sb = 1/2 \<and> s_name sb = ''B''"
    using b sb by (simp add: fd ANIMAL_INV_def)
  moreover have "predatory sp \<and> s_name sp = ''R''"
    using p sp by (simp add: fd)
  ultimately show ?thesis using c1 by (simp add: sb sp)
qed

lemma read_par_sentinel0:
  "read_entries Species_registry par_sentinel Map.empty = Inr (map_of par_sentinel)"
  by (simp add: par_sentinel_def par_common_def Species_registry_def fun_eq_iff)

lemma ready_par_sentinel: "list_all (token_ready (map_of par_sentinel)) Species_registry"
  by (simp add: par_sentinel_def par_common_def Species_registry_def token_ready_def)

lemma read_par_sentinel:
  "ReadParameters_read Species_registry par_sentinel =
     Inr (map_of (map (token_value (map_of par_sentinel)) Species_registry))"
  by (simp add: ReadParameters_read_def read_par_sentinel0 ready_par_sentinel)

text \<open>
  C10, as stated, fails: the file \<open>par_sentinel\<close> supplies \<open>F\<close>, with the value \<open>-1\<close>,
  and \<open>Species::init\<close> raises the error of a species that is not fully defined.
\<close>

theorem Species_init_sentinel:
  "supplied ''F'' par_sentinel \<and> isl (Species_init ''art.par'' par_sentinel)"
proof -
  note rd = ReadParameters_read_Species[OF read_par_sentinel]
  have l: "map_of par_sentinel ''F'' = Some (PDouble (- 1))"
    "map_of par_sentinel ''DeltaPhiMax'' = None"
    by (simp_all add: par_sentinel_def par_common_def)
  have "supplied ''F'' par_sentinel"
    by (simp add: supplied_def par_sentinel_def par_common_def)
  moreover have "isl (Species_init ''art.par'' par_sentinel)"
    by (simp add: Species_init_def read_par_sentinel rd Let_def file_double_def l ANIMAL_INV_def)
  ultimately show ?thesis by simp
qed

section \<open>Loading a population record\<close>

lemma genus_loop_None: "(genus_loop sps n i = None) = (n \<notin> s_name ` set sps)"
  by (induction sps arbitrary: i) auto

text \<open>
  C4, amended.  \<open>Simulation::genus\<close> returns the null pointer exactly for a name that no
  species has.  For such a name \<open>Simulation::insertAnimal\<close> raises nothing: it returns the
  null pointer, and the simulation is as before.  For a known name it does the same when
  the coordinates are outside the grid, and when the cell there is of a terrain that does
  not take part: no animal is created, population and grid are unchanged.
\<close>

theorem insertAnimal_rejects:
  "(Simulation_genus s name' = None) = (name' \<notin> s_name ` set (species s))
   \<and> (Simulation_genus s name' = None \<longrightarrow>
        Simulation_insertAnimal_name s name' age weight x y = Inr (None, s))
   \<and> (Simulation_genus s name' \<noteq> None \<and> (x \<ge> m_cols (geography s) \<or> y \<ge> m_rows (geography s)) \<longrightarrow>
        Simulation_insertAnimal_name s name' age weight x y = Inr (None, s))
   \<and> (Simulation_genus s name' \<noteq> None \<and> x < m_cols (geography s) \<and> y < m_rows (geography s) \<and>
        cells (geography s) (coordPack x y) = Some cell \<and> archetype cell = Some arch \<and>
        \<not> ac_live arch \<longrightarrow>
        Simulation_insertAnimal_name s name' age weight x y = Inr (None, s))"
  by (auto simp: Simulation_genus_def genus_loop_None Simulation_insertAnimal_name_def
      Simulation_insertAnimal_def Simulation_vivify_def Map_at_def Map_at_coord_def
      Cell_addAnimal0_def Cell_deref_def Archetype_deref_def)

lemma sim_graze_genus:
  "Simulation_genus sim_graze ''B'' = Some 0" "Simulation_genus sim_graze ''X'' = None"
  by (simp_all add: Simulation_genus_def sim_graze_def sp_B_def sp_R_def)

theorem insertAnimal_rejects_witness:
  "Simulation_insertAnimal_name sim_graze ''X'' 3 20 0 0 = Inr (None, sim_graze)
   \<and> Simulation_insertAnimal_name sim_graze ''B'' 3 20 5 0 = Inr (None, sim_graze)
   \<and> Simulation_insertAnimal_name sim_graze ''B'' 3 20 0 1 = Inr (None, sim_graze)"
  using insertAnimal_rejects[of sim_graze "''X''" 3 20 0 0]
    insertAnimal_rejects[of sim_graze "''B''" 3 20 5 0]
    insertAnimal_rejects[of sim_graze "''B''" 3 20 0 1 "mk_cell arch_H 0 1 []" arch_H]
  by (simp add: sim_graze_genus)
    (simp add: sim_graze_def map22_def coordPack_def mk_cell_def arch_H_def word_le_nat_alt word_less_nat_alt)

text \<open>
  C4, as stated, fails: the simulation \<open>sim_graze\<close> has the species \<open>B\<close> and \<open>R\<close>; loading
  a record of the unknown species \<open>X\<close> is no error, it returns the null pointer.
\<close>

theorem insertAnimal_unknown_species:
  "Simulation_genus sim_graze ''X'' = None
   \<and> Simulation_insertAnimal_name sim_graze ''X'' 3 20 0 0 = Inr (None, sim_graze)
   \<and> \<not> isl (Simulation_insertAnimal_name sim_graze ''X'' 3 20 0 0)"
  by (simp add: sim_graze_genus Simulation_insertAnimal_name_def Simulation_insertAnimal_def)

section \<open>Moving an animal\<close>

lemma set_set_insert [simp]: "set (set_insert p xs) = insert p (set xs)"
  by (simp add: set_insert_def insert_absorb set_insort_key)

lemma set_set_erase [simp]: "set (set_erase p xs) = set xs - {p}"
  by (auto simp: set_erase_def)

lemma set_insert_member: "p \<in> set xs \<Longrightarrow> set_insert p xs = xs"
  by (simp add: set_insert_def)

lemma Cell_store_simps [simp]:
  "heap (Cell_store s c x) = heap s"
  "cells (geography (Cell_store s c x)) = (cells (geography s))(c \<mapsto> x)"
  "m_rows (geography (Cell_store s c x)) = m_rows (geography s)"
  "m_cols (geography (Cell_store s c x)) = m_cols (geography s)"
  "species (Cell_store s c x) = species s"
  "animals (Cell_store s c x) = animals s"
  "next_ptr (Cell_store s c x) = next_ptr s"
  "rand_pos (Cell_store s c x) = rand_pos s"
  "rand_draws (Cell_store s c x) = rand_draws s"
  by (simp_all add: Cell_store_def)

lemma Animal_store_simps [simp]:
  "heap (Animal_store s p a) = (heap s)(p \<mapsto> a)"
  "geography (Animal_store s p a) = geography s"
  "species (Animal_store s p a) = species s"
  "animals (Animal_store s p a) = animals s"
  "next_ptr (Animal_store s p a) = next_ptr s"
  "rand_pos (Animal_store s p a) = rand_pos s"
  "rand_draws (Animal_store s p a) = rand_draws s"
  by (simp_all add: Animal_store_def)

lemma Cell_store_same: "cells (geography s) c = Some cell \<Longrightarrow> Cell_store s c cell = s"
  by (simp add: Cell_store_def map_upd_triv)

lemma Animal_store_same: "heap s p = Some a \<Longrightarrow> Animal_store s p a = s"
  by (simp add: Animal_store_def map_upd_triv)

text \<open>The shape of every run of \<open>Animal::moveTo\<close> that returns.\<close>

lemma moveTo_cases:
  assumes "Animal_moveTo s this dest = Inr (r, s')"
  obtains (null) "dest = None" "r = False" "s' = s"
  | (refused) d cell arch where "dest = Some d" "cells (geography s) d = Some cell"
      "archetype cell = Some arch" "\<not> ac_live arch" "r = False" "s' = s"
  | (moved) d cell arch a where "dest = Some d" "cells (geography s) d = Some cell"
      "archetype cell = Some arch" "ac_live arch" "heap s this = Some a"
      "loci a = None \<or> loci a = Some d" "r = True"
      "s' = Animal_store (Cell_store s d (cell\<lparr>habitants := set_insert this (habitants cell)\<rparr>))
              this (a\<lparr>loci := Some d\<rparr>)"
  | (moved_from) d cell arch a old ocell where "dest = Some d" "cells (geography s) d = Some cell"
      "archetype cell = Some arch" "ac_live arch" "heap s this = Some a"
      "loci a = Some old" "old \<noteq> d" "cells (geography s) old = Some ocell" "r = True"
      "s' = Animal_store
              (Cell_store (Cell_store s d (cell\<lparr>habitants := set_insert this (habitants cell)\<rparr>))
                 old (ocell\<lparr>habitants := set_erase this (habitants ocell)\<rparr>))
              this (a\<lparr>loci := Some d\<rparr>)"
proof (cases dest)
  case None
  with assms show ?thesis by (intro null) (simp_all add: Animal_moveTo_def)
next
  case (Some d)
  note d = Some
  show ?thesis
  proof (cases "cells (geography s) d")
    case None
    with assms d show ?thesis
      by (simp add: Animal_moveTo_def Cell_addAnimal_def Cell_deref_def)
  next
    case (Some cell)
    note cell = Some
    show ?thesis
    proof (cases "archetype cell")
      case None
      with assms d cell show ?thesis
        by (simp add: Animal_moveTo_def Cell_addAnimal_def Cell_deref_def Archetype_deref_def)
    next
      case (Some arch)
      note arch = Some
      show ?thesis
      proof (cases "ac_live arch")
        case False
        with assms d cell arch show ?thesis
          by (intro refused[of d cell arch])
            (simp_all add: Animal_moveTo_def Cell_addAnimal_def Cell_deref_def Archetype_deref_def)
      next
        case True
        note live = True
        show ?thesis
        proof (cases "heap s this")
          case None
          with assms d cell arch live show ?thesis
            by (simp add: Animal_moveTo_def Cell_addAnimal_def Cell_deref_def Archetype_deref_def
                Animal_deref_def)
        next
          case (Some a)
          note a = Some
          show ?thesis
          proof (cases "loci a = None \<or> loci a = Some d")
            case True
            with assms d cell arch live a show ?thesis
              by (intro moved[of d cell arch a])
                (auto simp: Animal_moveTo_def Cell_addAnimal_def Cell_deref_def Archetype_deref_def
                  Animal_deref_def)
          next
            case False
            then obtain old where old: "loci a = Some old" "old \<noteq> d" by auto
            show ?thesis
            proof (cases "cells (geography s) old")
              case None
              with assms d cell arch live a old show ?thesis
                by (simp add: Animal_moveTo_def Cell_addAnimal_def Cell_deref_def
                    Archetype_deref_def Animal_deref_def Cell_removeAnimal_def)
            next
              case (Some ocell)
              with assms d cell arch live a old show ?thesis
                by (intro moved_from[of d cell arch a old ocell])
                  (auto simp: Animal_moveTo_def Cell_addAnimal_def Cell_deref_def
                    Archetype_deref_def Animal_deref_def Cell_removeAnimal_def)
            qed
          qed
        qed
      qed
    qed
  qed
qed


lemma inv_member:
  "membership_inv s \<Longrightarrow> cells (geography s) c = Some cell \<Longrightarrow> p \<in> set (habitants cell) \<Longrightarrow>
     \<exists>a. heap s p = Some a \<and> loci a = Some c"
  unfolding membership_inv_def by blast

lemma inv_located:
  "membership_inv s \<Longrightarrow> heap s p = Some a \<Longrightarrow> loci a = Some c \<Longrightarrow>
     \<exists>cell. cells (geography s) c = Some cell \<and> p \<in> set (habitants cell)"
  unfolding membership_inv_def by blast

lemma moveTo_membership_inv:
  assumes "membership_inv s" and "Animal_moveTo s this dest = Inr (r, s')"
  shows "membership_inv s'"
  using assms(2)
proof (cases rule: moveTo_cases)
  case null
  with assms(1) show ?thesis by simp
next
  case (refused d cell arch)
  with assms(1) show ?thesis by simp
next
  case (moved d cell arch a)
  have no_other: "c = d"
    if "cells (geography s) c = Some cl" "this \<in> set (habitants cl)" for c cl
    using inv_member[OF assms(1) that] moved(5,6) by auto
  show ?thesis
    unfolding membership_inv_def
  proof (intro conjI allI impI)
    fix c cl p
    assume h: "cells (geography s') c = Some cl \<and> p \<in> set (habitants cl)"
    show "\<exists>a. heap s' p = Some a \<and> loci a = Some c"
    proof (cases "p = this")
      case True
      with h no_other moved show ?thesis by (auto split: if_splits)
    next
      case False
      from h moved obtain cl0 where "cells (geography s) c = Some cl0" "p \<in> set (habitants cl0)"
        using False by (auto split: if_splits)
      from inv_member[OF assms(1) this] False moved show ?thesis by simp
    qed
  next
    fix p a' c
    assume h: "heap s' p = Some a' \<and> loci a' = Some c"
    show "\<exists>cell. cells (geography s') c = Some cell \<and> p \<in> set (habitants cell)"
    proof (cases "p = this")
      case True
      with h moved show ?thesis by auto
    next
      case False
      with h moved have "heap s p = Some a'" "loci a' = Some c" by auto
      from inv_located[OF assms(1) this] moved show ?thesis by auto
    qed
  qed
next
  case (moved_from d cell arch a old ocell)
  have no_other: "c = old"
    if "cells (geography s) c = Some cl" "this \<in> set (habitants cl)" for c cl
    using inv_member[OF assms(1) that] moved_from(5,6) by auto
  show ?thesis
    unfolding membership_inv_def
  proof (intro conjI allI impI)
    fix c cl p
    assume h: "cells (geography s') c = Some cl \<and> p \<in> set (habitants cl)"
    show "\<exists>a. heap s' p = Some a \<and> loci a = Some c"
    proof (cases "p = this")
      case True
      with h no_other moved_from show ?thesis by (auto split: if_splits)
    next
      case False
      from h moved_from obtain cl0 where "cells (geography s) c = Some cl0" "p \<in> set (habitants cl0)"
        using False by (auto split: if_splits)
      from inv_member[OF assms(1) this] False moved_from show ?thesis by simp
    qed
  next
    fix p a' c
    assume h: "heap s' p = Some a' \<and> loci a' = Some c"
    show "\<exists>cell. cells (geography s') c = Some cell \<and> p \<in> set (habitants cell)"
    proof (cases "p = this")
      case True
      with h moved_from show ?thesis by auto
    next
      case False
      with h moved_from have "heap s p = Some a'" "loci a' = Some c" by auto
      from inv_located[OF assms(1) this] moved_from False show ?thesis by auto
    qed
  qed
qed

lemma moveTo_inhabited_live:
  assumes "inhabited_live s" and "Animal_moveTo s this dest = Inr (r, s')"
  shows "inhabited_live s'"
  using assms(2)
proof (cases rule: moveTo_cases)
  case null
  with assms(1) show ?thesis by simp
next
  case (refused d cell arch)
  with assms(1) show ?thesis by simp
next
  case (moved d cell arch a)
  with assms(1) show ?thesis
    unfolding inhabited_live_def by (auto split: if_splits)
next
  case (moved_from d cell arch a old ocell)
  have "habitants ocell \<noteq> []" if "set_erase this (habitants ocell) \<noteq> []"
    using that by (auto simp: set_erase_def)
  with assms(1) moved_from show ?thesis
    unfolding inhabited_live_def by (auto split: if_splits)
qed


lemma moveTo_success:
  assumes "Animal_moveTo s this (Some d) = Inr (True, s')" and "heap s this = Some a"
  shows "\<exists>a' cell'. heap s' this = Some a' \<and> loci a' = Some d \<and>
           cells (geography s') d = Some cell' \<and> this \<in> set (habitants cell')"
    and "loci a = Some old \<Longrightarrow> old \<noteq> d \<Longrightarrow>
           \<exists>ocell'. cells (geography s') old = Some ocell' \<and> this \<notin> set (habitants ocell')"
proof -
  show "\<exists>a' cell'. heap s' this = Some a' \<and> loci a' = Some d \<and>
           cells (geography s') d = Some cell' \<and> this \<in> set (habitants cell')"
    using assms(1)
  proof (cases rule: moveTo_cases)
    case (moved d' cell arch a0)
    then show ?thesis by auto
  next
    case (moved_from d' cell arch a0 old ocell)
    then show ?thesis by auto
  qed simp_all
  assume o: "loci a = Some old" "old \<noteq> d"
  show "\<exists>ocell'. cells (geography s') old = Some ocell' \<and> this \<notin> set (habitants ocell')"
    using assms(1)
  proof (cases rule: moveTo_cases)
    case (moved d' cell arch a0)
    with assms(2) o show ?thesis by auto
  next
    case (moved_from d' cell arch a0 old' ocell)
    with assms(2) o show ?thesis by auto
  qed simp_all
qed

lemma moveTo_refused:
  "cells (geography s) d = Some cell \<Longrightarrow> archetype cell = Some arch \<Longrightarrow> \<not> ac_live arch \<Longrightarrow>
     Animal_moveTo s this (Some d) = Inr (False, s)"
  by (simp add: Animal_moveTo_def Cell_addAnimal_def Cell_deref_def Archetype_deref_def)

lemma moveTo_same_cell:
  assumes "membership_inv s" and "inhabited_live s"
    and "heap s this = Some a" and "loci a = Some d"
  shows "Animal_moveTo s this (Some d) = Inr (True, s)"
proof -
  obtain cell where cell: "cells (geography s) d = Some cell" "this \<in> set (habitants cell)"
    using inv_located[OF assms(1,3,4)] by blast
  then obtain arch where arch: "archetype cell = Some arch" "ac_live arch"
    using assms(2) unfolding inhabited_live_def by fastforce
  have a: "a\<lparr>loci := Some d\<rparr> = a" using assms(4) by simp
  show ?thesis
    using assms(3,4) cell arch
    by (simp add: Animal_moveTo_def Cell_addAnimal_def Cell_deref_def Archetype_deref_def
        set_insert_member Cell_store_same Animal_deref_def a Animal_store_same)
qed

lemma moveTo_False_unchanged:
  assumes "Animal_moveTo s this dest = Inr (False, s')"
  shows "s' = s"
  using assms by (cases rule: moveTo_cases) auto

text \<open>
  C9: \<open>Animal::moveTo\<close> preserves the mutual membership of cells and animals (and that
  residents are in participating cells only).  A move that returns true leaves the animal
  a resident of the destination, with the destination as its location, and no longer a
  resident of the cell it came from.  A move to a cell of a terrain that does not take
  part returns false and changes nothing, as does every move that returns false.  A move
  to the cell the animal is in returns true and changes nothing.
\<close>

theorem moveTo_keeps_membership:
  assumes "membership_inv s" and "inhabited_live s"
  shows "(\<forall>r s'. Animal_moveTo s this dest = Inr (r, s') \<longrightarrow>
            membership_inv s' \<and> inhabited_live s')
       \<and> (\<forall>s' a d. Animal_moveTo s this dest = Inr (True, s') \<and> heap s this = Some a \<and>
            dest = Some d \<longrightarrow>
            (\<exists>a' cell'. heap s' this = Some a' \<and> loci a' = Some d \<and>
               cells (geography s') d = Some cell' \<and> this \<in> set (habitants cell')) \<and>
            (\<forall>old. loci a = Some old \<and> old \<noteq> d \<longrightarrow>
               (\<exists>ocell'. cells (geography s') old = Some ocell' \<and>
                  this \<notin> set (habitants ocell'))))
       \<and> (\<forall>d cell arch. dest = Some d \<and> cells (geography s) d = Some cell \<and>
            archetype cell = Some arch \<and> \<not> ac_live arch \<longrightarrow>
            Animal_moveTo s this dest = Inr (False, s))
       \<and> (\<forall>a d. dest = Some d \<and> heap s this = Some a \<and> loci a = Some d \<longrightarrow>
            Animal_moveTo s this dest = Inr (True, s))
       \<and> (\<forall>s'. Animal_moveTo s this dest = Inr (False, s') \<longrightarrow> s' = s)"
proof -
  have 1: "\<forall>r s'. Animal_moveTo s this dest = Inr (r, s') \<longrightarrow>
            membership_inv s' \<and> inhabited_live s'"
    using assms moveTo_membership_inv moveTo_inhabited_live by blast
  have 2: "\<forall>s' a d. Animal_moveTo s this dest = Inr (True, s') \<and> heap s this = Some a \<and>
            dest = Some d \<longrightarrow>
            (\<exists>a' cell'. heap s' this = Some a' \<and> loci a' = Some d \<and>
               cells (geography s') d = Some cell' \<and> this \<in> set (habitants cell')) \<and>
            (\<forall>old. loci a = Some old \<and> old \<noteq> d \<longrightarrow>
               (\<exists>ocell'. cells (geography s') old = Some ocell' \<and>
                  this \<notin> set (habitants ocell')))"
    using moveTo_success[of s this] by blast
  have 3: "\<forall>d cell arch. dest = Some d \<and> cells (geography s) d = Some cell \<and>
            archetype cell = Some arch \<and> \<not> ac_live arch \<longrightarrow>
            Animal_moveTo s this dest = Inr (False, s)"
    using moveTo_refused[of s] by blast
  have 4: "\<forall>a d. dest = Some d \<and> heap s this = Some a \<and> loci a = Some d \<longrightarrow>
            Animal_moveTo s this dest = Inr (True, s)"
    using moveTo_same_cell[OF assms] by blast
  have 5: "\<forall>s'. Animal_moveTo s this dest = Inr (False, s') \<longrightarrow> s' = s"
    using moveTo_False_unchanged by blast
  from 1 2 3 4 5 show ?thesis by (intro conjI)
qed

lemma sim_graze_inv: "membership_inv sim_graze" "inhabited_live sim_graze"
  by (auto simp: membership_inv_def inhabited_live_def sim_graze_def map22_def mk_cell_def
      mk_animal_def arch_J_def split: if_splits)

text \<open>The herbivore of \<open>sim_graze\<close> moves from \<open>(0,0)\<close> to \<open>(1,0)\<close>, is refused by
  the water at \<open>(0,1)\<close>, and moves to its own cell.\<close>

theorem moveTo_keeps_membership_witness:
  "membership_inv sim_graze \<and> inhabited_live sim_graze
   \<and> (case Animal_moveTo sim_graze 1 (Some 65536) of
        Inl e \<Rightarrow> False
      | Inr (r, s') \<Rightarrow> r \<and> membership_inv s' \<and> inhabited_live s'
          \<and> map_option loci (heap s' 1) = Some (Some 65536)
          \<and> map_option habitants (cells (geography s') 0) = Some []
          \<and> map_option habitants (cells (geography s') 65536) = Some [1])
   \<and> Animal_moveTo sim_graze 1 (Some 1) = Inr (False, sim_graze)
   \<and> Animal_moveTo sim_graze 1 (Some 0) = Inr (True, sim_graze)"
proof -
  note t1 = moveTo_keeps_membership[OF sim_graze_inv, of 1 "Some 65536"]
  note t2 = moveTo_keeps_membership[OF sim_graze_inv, of 1 "Some 1"]
  note t3 = moveTo_keeps_membership[OF sim_graze_inv, of 1 "Some 0"]
  have e: "Animal_moveTo sim_graze 1 (Some 65536) =
      Inr (True, Animal_store
              (Cell_store (Cell_store sim_graze 65536 (mk_cell arch_J 1 0 [1]))
                 0 (mk_cell arch_J 0 0 []))
              1 (mk_animal [sp_B, sp_R] 0 3 20 65536))"
    by (simp add: Animal_moveTo_def Cell_addAnimal_def Cell_deref_def Archetype_deref_def
        Animal_deref_def Cell_removeAnimal_def sim_graze_def map22_def mk_cell_def arch_J_def
        mk_animal_def set_insert_def set_erase_def Cell_store_def)
  have a: "membership_inv (Animal_store
              (Cell_store (Cell_store sim_graze 65536 (mk_cell arch_J 1 0 [1]))
                 0 (mk_cell arch_J 0 0 []))
              1 (mk_animal [sp_B, sp_R] 0 3 20 65536))
         \<and> inhabited_live (Animal_store
              (Cell_store (Cell_store sim_graze 65536 (mk_cell arch_J 1 0 [1]))
                 0 (mk_cell arch_J 0 0 []))
              1 (mk_animal [sp_B, sp_R] 0 3 20 65536))"
  proof -
    from t1 have "\<forall>r s'. Animal_moveTo sim_graze 1 (Some 65536) = Inr (r, s') \<longrightarrow>
            membership_inv s' \<and> inhabited_live s'"
      by (rule conjunct1)
    with e show ?thesis by blast
  qed
  have b: "Animal_moveTo sim_graze 1 (Some 1) = Inr (False, sim_graze)"
    using t2 by (simp add: sim_graze_def map22_def mk_cell_def arch_H_def)
  have c: "Animal_moveTo sim_graze 1 (Some 0) = Inr (True, sim_graze)"
    using t3 by (simp add: sim_graze_def mk_animal_def)
  show ?thesis
    unfolding e using a b c sim_graze_inv by (simp add: mk_animal_def mk_cell_def)
qed

section \<open>Death\<close>

lemma Species_deref_store [simp]:
  "Species_deref (Animal_store s p a) g = Species_deref s g"
  "Species_deref (Cell_store s c x) g = Species_deref s g"
  by (simp_all add: Species_deref_def split: option.splits)

lemma Animal_fitness_eq:
  assumes "heap s this = Some a" and "Species_deref s (isa a) = Inr sp"
  shows "Animal_fitness s this =
           Inr (fitness_of sp a, Animal_store s this (a\<lparr>fitness_cache := fitness_of sp a\<rparr>))"
proof (cases "fitness_cache a = ANIMAL_INV")
  case True
  with assms show ?thesis
    by (simp add: Animal_fitness_def Animal_deref_def Let_def fitness_of_def)
next
  case False
  have "a\<lparr>fitness_cache := fitness_cache a\<rparr> = a" by simp
  with False assms show ?thesis
    by (simp add: Animal_fitness_def Animal_deref_def Animal_store_same fitness_of_def)
qed

text \<open>What the death branch of \<open>Animal::die\<close> does to a state in which the animal is
  \<open>a1\<close>.\<close>

lemma unregister:
  assumes "membership_inv s1" and "heap s1 this = Some a1"
  obtains s' where "bind_e (Animal_deref s1 this) (\<lambda>a2.
           bind_e (if loci a2 \<noteq> None then Cell_removeAnimal s1 (the (loci a2)) this else Inr s1) (\<lambda>s3.
             Inr (True, Animal_store s3 this (a2\<lparr>loci := None\<rparr>)))) = Inr (True, s')"
    and "heap s' = (heap s1)(this \<mapsto> a1\<lparr>loci := None\<rparr>)"
    and "\<forall>c cell'. cells (geography s') c = Some cell' \<longrightarrow> this \<notin> set (habitants cell')"
    and "rand_pos s' = rand_pos s1" and "membership_inv s'"
proof (cases "loci a1")
  case None
  have no: "this \<notin> set (habitants cell)" if "cells (geography s1) c = Some cell" for c cell
  proof
    assume "this \<in> set (habitants cell)"
    from inv_member[OF assms(1) that this] assms(2) None show False by auto
  qed
  have "a1\<lparr>loci := None\<rparr> = a1" using None by simp
  then have same: "Animal_store s1 this (a1\<lparr>loci := None\<rparr>) = s1"
    using assms(2) by (simp add: Animal_store_same)
  have run: "bind_e (Animal_deref s1 this) (\<lambda>a2.
           bind_e (if loci a2 \<noteq> None then Cell_removeAnimal s1 (the (loci a2)) this else Inr s1) (\<lambda>s3.
             Inr (True, Animal_store s3 this (a2\<lparr>loci := None\<rparr>)))) = Inr (True, s1)"
    using None assms(2) by (simp add: Animal_deref_def same)
  have hp: "heap s1 = (heap s1)(this \<mapsto> a1\<lparr>loci := None\<rparr>)"
    using same by (metis Animal_store_simps(1))
  have nomore: "\<forall>c cell'. cells (geography s1) c = Some cell' \<longrightarrow> this \<notin> set (habitants cell')"
    using no by simp
  show ?thesis
    by (rule that[of s1]) (fact run, fact hp, fact nomore, rule refl, fact assms(1))
next
  case (Some c)
  obtain cell where cell: "cells (geography s1) c = Some cell" "this \<in> set (habitants cell)"
    using inv_located[OF assms(1,2) Some] by blast
  have no: "c' = c" if "cells (geography s1) c' = Some cl" "this \<in> set (habitants cl)" for c' cl
    using inv_member[OF assms(1) that] assms(2) Some by auto
  let ?s' = "Animal_store (Cell_store s1 c (cell\<lparr>habitants := set_erase this (habitants cell)\<rparr>))
               this (a1\<lparr>loci := None\<rparr>)"
  have nomore: "\<forall>c' cell'. cells (geography ?s') c' = Some cell' \<longrightarrow> this \<notin> set (habitants cell')"
  proof (intro allI impI notI)
    fix c' cell'
    assume h: "cells (geography ?s') c' = Some cell'" and m: "this \<in> set (habitants cell')"
    show False
    proof (cases "c' = c")
      case True
      with h m show False by auto
    next
      case False
      with h have "cells (geography s1) c' = Some cell'" by simp
      from no[OF this m] False show False by simp
    qed
  qed
  have inv': "membership_inv ?s'"
    unfolding membership_inv_def
  proof (intro conjI allI impI)
    fix c' cl p
    assume h: "cells (geography ?s') c' = Some cl \<and> p \<in> set (habitants cl)"
    with nomore have ne: "p \<noteq> this" by blast
    have "\<exists>cl0. cells (geography s1) c' = Some cl0 \<and> p \<in> set (habitants cl0)"
    proof (cases "c' = c")
      case True
      with h cell show ?thesis by auto
    next
      case False
      with h show ?thesis by simp
    qed
    then obtain a where "heap s1 p = Some a" "loci a = Some c'"
      using inv_member[OF assms(1)] by blast
    with ne show "\<exists>a. heap ?s' p = Some a \<and> loci a = Some c'" by simp
  next
    fix p a' c'
    assume h: "heap ?s' p = Some a' \<and> loci a' = Some c'"
    then have ne: "p \<noteq> this" by (auto split: if_splits)
    with h have "heap s1 p = Some a'" "loci a' = Some c'" by auto
    from inv_located[OF assms(1) this] obtain cl0 where
      cl0: "cells (geography s1) c' = Some cl0" "p \<in> set (habitants cl0)" by blast
    show "\<exists>cell. cells (geography ?s') c' = Some cell \<and> p \<in> set (habitants cell)"
    proof (cases "c' = c")
      case True
      with cl0 cell ne show ?thesis by auto
    next
      case False
      with cl0 show ?thesis by simp
    qed
  qed
  have run: "bind_e (Animal_deref s1 this) (\<lambda>a2.
           bind_e (if loci a2 \<noteq> None then Cell_removeAnimal s1 (the (loci a2)) this else Inr s1) (\<lambda>s3.
             Inr (True, Animal_store s3 this (a2\<lparr>loci := None\<rparr>)))) = Inr (True, ?s')"
    using Some assms(2) cell by (simp add: Animal_deref_def Cell_removeAnimal_def Cell_deref_def)
  have hp: "heap ?s' = (heap s1)(this \<mapsto> a1\<lparr>loci := None\<rparr>)" by simp
  have rp: "rand_pos ?s' = rand_pos s1" by simp
  show ?thesis
    by (rule that[of ?s']) (fact run, fact hp, fact nomore, fact rp, fact inv')
qed


lemma membership_inv_cache:
  assumes "membership_inv s" and "heap s this = Some a"
  shows "membership_inv (Animal_store s this (a\<lparr>fitness_cache := x\<rparr>))"
  unfolding membership_inv_def
proof (intro conjI allI impI)
  fix c cell p
  assume h: "cells (geography (Animal_store s this (a\<lparr>fitness_cache := x\<rparr>))) c = Some cell \<and>
             p \<in> set (habitants cell)"
  then have "cells (geography s) c = Some cell" "p \<in> set (habitants cell)" by simp_all
  from inv_member[OF assms(1) this] obtain a0 where "heap s p = Some a0" "loci a0 = Some c"
    by blast
  with assms(2)
  show "\<exists>a'. heap (Animal_store s this (a\<lparr>fitness_cache := x\<rparr>)) p = Some a' \<and> loci a' = Some c"
    by (cases "p = this") auto
next
  fix p a' c
  assume "heap (Animal_store s this (a\<lparr>fitness_cache := x\<rparr>)) p = Some a' \<and> loci a' = Some c"
  then have "\<exists>a0. heap s p = Some a0 \<and> loci a0 = Some c"
    using assms(2) by (cases "p = this") auto
  then obtain a0 where "heap s p = Some a0" "loci a0 = Some c" by blast
  from inv_located[OF assms(1) this]
  show "\<exists>cell. cells (geography (Animal_store s this (a\<lparr>fitness_cache := x\<rparr>))) c = Some cell \<and>
                p \<in> set (habitants cell)"
    by simp
qed

lemma membership_inv_rand_pos [simp]:
  "membership_inv (s\<lparr>rand_pos := n\<rparr>) = membership_inv s"
  by (simp add: membership_inv_def)


lemma die_weightless:
  assumes "membership_inv s" and "heap s this = Some a" and "vekt a = 0"
  obtains s' where "Animal_die s this = Inr (True, s')"
    and "heap s' = (heap s)(this \<mapsto> a\<lparr>loci := None\<rparr>)"
    and "\<forall>c cell'. cells (geography s') c = Some cell' \<longrightarrow> this \<notin> set (habitants cell')"
    and "rand_pos s' = rand_pos s" and "membership_inv s'"
proof -
  from unregister[OF assms(1,2)] obtain s' where
    u: "bind_e (Animal_deref s this) (\<lambda>a2.
           bind_e (if loci a2 \<noteq> None then Cell_removeAnimal s (the (loci a2)) this else Inr s) (\<lambda>s3.
             Inr (True, Animal_store s3 this (a2\<lparr>loci := None\<rparr>)))) = Inr (True, s')"
    and r: "heap s' = (heap s)(this \<mapsto> a\<lparr>loci := None\<rparr>)"
      "\<forall>c cell'. cells (geography s') c = Some cell' \<longrightarrow> this \<notin> set (habitants cell')"
      "rand_pos s' = rand_pos s" "membership_inv s'"
    by blast
  have "Animal_die s this = Inr (True, s')"
    using assms(2,3) u by (simp add: Animal_die_def Animal_deref_def)
  then show ?thesis using r by (rule that)
qed


lemma die_unfold:
  assumes "heap s this = Some a" and "Species_deref s (isa a) = Inr sp" and "vekt a \<noteq> 0"
  shows "Animal_die s this =
     (case Species_die (Animal_store s this (a\<lparr>fitness_cache := fitness_of sp a\<rparr>)) sp (fitness_of sp a) of
        (death, s2) \<Rightarrow>
          if death then
            bind_e (Animal_deref s2 this) (\<lambda>a2.
            bind_e (if loci a2 \<noteq> None then Cell_removeAnimal s2 (the (loci a2)) this else Inr s2) (\<lambda>s3.
              Inr (True, Animal_store s3 this (a2\<lparr>loci := None\<rparr>))))
          else Inr (False, s2))"
  using assms
  by (simp add: Animal_die_def Animal_deref_def Animal_fitness_eq[OF assms(1,2)] split: prod.splits)

lemma die_unfit:
  assumes "membership_inv s" and "heap s this = Some a" and "Species_deref s (isa a) = Inr sp"
    and "vekt a \<noteq> 0" and "fitness_of sp a \<le> 0"
  obtains s' where "Animal_die s this = Inr (True, s')"
    and "heap s' = (heap s)(this \<mapsto> a\<lparr>fitness_cache := fitness_of sp a, loci := None\<rparr>)"
    and "\<forall>c cell'. cells (geography s') c = Some cell' \<longrightarrow> this \<notin> set (habitants cell')"
    and "rand_pos s' = rand_pos s" and "membership_inv s'"
proof -
  let ?a1 = "a\<lparr>fitness_cache := fitness_of sp a\<rparr>"
  let ?s1 = "Animal_store s this ?a1"
  have i1: "membership_inv ?s1" by (rule membership_inv_cache[OF assms(1,2)])
  have h1: "heap ?s1 this = Some ?a1" by simp
  from unregister[OF i1 h1] obtain s' where
    u: "bind_e (Animal_deref ?s1 this) (\<lambda>a2.
           bind_e (if loci a2 \<noteq> None then Cell_removeAnimal ?s1 (the (loci a2)) this else Inr ?s1) (\<lambda>s3.
             Inr (True, Animal_store s3 this (a2\<lparr>loci := None\<rparr>)))) = Inr (True, s')"
    and r: "heap s' = (heap ?s1)(this \<mapsto> ?a1\<lparr>loci := None\<rparr>)"
      "\<forall>c cell'. cells (geography s') c = Some cell' \<longrightarrow> this \<notin> set (habitants cell')"
      "rand_pos s' = rand_pos ?s1" "membership_inv s'"
    by blast
  have d: "Animal_die s this = Inr (True, s')"
    using assms(5) u by (simp add: die_unfold[OF assms(2,3,4)] Species_die_def)
  show ?thesis
    using r by (intro that[OF d]) simp_all
qed

lemma die_draw:
  assumes "membership_inv s" and "heap s this = Some a" and "Species_deref s (isa a) = Inr sp"
    and "vekt a \<noteq> 0" and "\<not> fitness_of sp a \<le> 0"
    and "rand_draws s (rand_pos s) < s_omega sp * (1 - fitness_of sp a)"
  obtains s' where "Animal_die s this = Inr (True, s')"
    and "heap s' = (heap s)(this \<mapsto> a\<lparr>fitness_cache := fitness_of sp a, loci := None\<rparr>)"
    and "\<forall>c cell'. cells (geography s') c = Some cell' \<longrightarrow> this \<notin> set (habitants cell')"
    and "rand_pos s' = Suc (rand_pos s)" and "membership_inv s'"
proof -
  let ?a1 = "a\<lparr>fitness_cache := fitness_of sp a\<rparr>"
  let ?s1 = "(Animal_store s this ?a1)\<lparr>rand_pos := Suc (rand_pos s)\<rparr>"
  have i1: "membership_inv ?s1" using membership_inv_cache[OF assms(1,2)] by simp
  have h1: "heap ?s1 this = Some ?a1" by simp
  from unregister[OF i1 h1] obtain s' where
    u: "bind_e (Animal_deref ?s1 this) (\<lambda>a2.
           bind_e (if loci a2 \<noteq> None then Cell_removeAnimal ?s1 (the (loci a2)) this else Inr ?s1) (\<lambda>s3.
             Inr (True, Animal_store s3 this (a2\<lparr>loci := None\<rparr>)))) = Inr (True, s')"
    and r: "heap s' = (heap ?s1)(this \<mapsto> ?a1\<lparr>loci := None\<rparr>)"
      "\<forall>c cell'. cells (geography s') c = Some cell' \<longrightarrow> this \<notin> set (habitants cell')"
      "rand_pos s' = rand_pos ?s1" "membership_inv s'"
    by blast
  have d: "Animal_die s this = Inr (True, s')"
    using assms(5,6) u
    by (simp add: die_unfold[OF assms(2,3,4)] Species_die_def drand_def Let_def)
  show ?thesis
    using r by (intro that[OF d]) simp_all
qed

lemma die_survive:
  assumes "heap s this = Some a" and "Species_deref s (isa a) = Inr sp"
    and "vekt a \<noteq> 0" and "\<not> fitness_of sp a \<le> 0"
    and "\<not> rand_draws s (rand_pos s) < s_omega sp * (1 - fitness_of sp a)"
  shows "Animal_die s this =
     Inr (False, (Animal_store s this (a\<lparr>fitness_cache := fitness_of sp a\<rparr>))
                    \<lparr>rand_pos := Suc (rand_pos s)\<rparr>)"
  using assms(4,5)
  by (simp add: die_unfold[OF assms(1,2,3)] Species_die_def drand_def Let_def)


lemma fitness_of_cached:
  "fitness_of sp (a\<lparr>fitness_cache := fitness_of sp a\<rparr>) = fitness_of sp a"
  using fitness_range[of sp "vekt a" "alder a"]
  by (simp add: fitness_of_def ANIMAL_INV_def)

text \<open>
  C8: for an allocated animal of a valid species, in a state with the mutual membership,
  and with the next draw below 1, \<open>Animal::die\<close> returns; it returns true exactly when the
  weight is 0 or the next draw is below \<open>deathProbability\<close> of the fitness (which is 1
  for a fitness that is not positive).  At weight 0 it returns true and no draw is
  consumed.  When it returns true the animal has no location and is a resident of no
  cell.  When it returns false the grid, the population and every other animal are as
  before, and so are the species, weight, age, location and fitness of the animal: the
  state differs only in the position of the random stream and in the fitness cache, which
  then holds the fitness.
\<close>

theorem die_cases:
  assumes "membership_inv s" and "heap s this = Some a" and "Species_deref s (isa a) = Inr sp"
    and "rand_draws s (rand_pos s) < 1"
  shows "\<exists>death s'. Animal_die s this = Inr (death, s')
     \<and> death = (vekt a = 0 \<or> rand_draws s (rand_pos s) < deathProbability sp (fitness_of sp a))
     \<and> (vekt a = 0 \<longrightarrow> death \<and> rand_pos s' = rand_pos s)
     \<and> (death \<longrightarrow> (\<exists>a'. heap s' this = Some a' \<and> loci a' = None) \<and>
           (\<forall>c cell'. cells (geography s') c = Some cell' \<longrightarrow> this \<notin> set (habitants cell')))
     \<and> (\<not> death \<longrightarrow>
           s' = (Animal_store s this (a\<lparr>fitness_cache := fitness_of sp a\<rparr>))
                  \<lparr>rand_pos := Suc (rand_pos s)\<rparr> \<and>
           geography s' = geography s \<and> animals s' = animals s \<and>
           (\<forall>p. p \<noteq> this \<longrightarrow> heap s' p = heap s p) \<and>
           (\<exists>a'. heap s' this = Some a' \<and> isa a' = isa a \<and> vekt a' = vekt a \<and>
              alder a' = alder a \<and> loci a' = loci a \<and> fitness_of sp a' = fitness_of sp a))
     \<and> membership_inv s'"
proof (cases "vekt a = 0")
  case True
  from die_weightless[OF assms(1,2) True] obtain s' where
    "Animal_die s this = Inr (True, s')"
    "heap s' = (heap s)(this \<mapsto> a\<lparr>loci := None\<rparr>)"
    "\<forall>c cell'. cells (geography s') c = Some cell' \<longrightarrow> this \<notin> set (habitants cell')"
    "rand_pos s' = rand_pos s" "membership_inv s'"
    by blast
  with True show ?thesis
    by (intro exI[of _ True] exI[of _ s']) simp
next
  case False
  note w = False
  show ?thesis
  proof (cases "fitness_of sp a \<le> 0")
    case True
    from die_unfit[OF assms(1,2,3) w True] obtain s' where
      "Animal_die s this = Inr (True, s')"
      "heap s' = (heap s)(this \<mapsto> a\<lparr>fitness_cache := fitness_of sp a, loci := None\<rparr>)"
      "\<forall>c cell'. cells (geography s') c = Some cell' \<longrightarrow> this \<notin> set (habitants cell')"
      "rand_pos s' = rand_pos s" "membership_inv s'"
      by blast
    with True w assms(4) show ?thesis
      by (intro exI[of _ True] exI[of _ s']) (simp add: deathProbability_def)
  next
    case False
    note f = False
    show ?thesis
    proof (cases "rand_draws s (rand_pos s) < s_omega sp * (1 - fitness_of sp a)")
      case True
      from die_draw[OF assms(1,2,3) w f True] obtain s' where
        "Animal_die s this = Inr (True, s')"
        "heap s' = (heap s)(this \<mapsto> a\<lparr>fitness_cache := fitness_of sp a, loci := None\<rparr>)"
        "\<forall>c cell'. cells (geography s') c = Some cell' \<longrightarrow> this \<notin> set (habitants cell')"
        "rand_pos s' = Suc (rand_pos s)" "membership_inv s'"
        by blast
      with True w f show ?thesis
        by (intro exI[of _ True] exI[of _ s']) (simp add: deathProbability_def)
    next
      case False
      let ?s' = "(Animal_store s this (a\<lparr>fitness_cache := fitness_of sp a\<rparr>))
                   \<lparr>rand_pos := Suc (rand_pos s)\<rparr>"
      have d: "Animal_die s this = Inr (False, ?s')"
        by (rule die_survive[OF assms(2,3) w f False])
      have i: "membership_inv ?s'"
        using membership_inv_cache[OF assms(1,2)] by simp
      from d i False w f show ?thesis
        by (intro exI[of _ False] exI[of _ ?s'])
          (simp add: deathProbability_def fitness_of_cached)
    qed
  qed
qed


lemma sim_graze_animal:
  "heap sim_graze 1 = Some (mk_animal [sp_B, sp_R] 0 3 20 0)"
  "Species_deref sim_graze (isa (mk_animal [sp_B, sp_R] 0 3 20 0)) = Inr sp_B"
  "vekt (mk_animal [sp_B, sp_R] 0 3 20 0) = 20"
  "fitness_of sp_B (mk_animal [sp_B, sp_R] 0 3 20 0) = 1/8"
  "deathProbability sp_B (1/8) = 7/20"
  by (simp_all add: sim_graze_def mk_animal_def Species_deref_def fitness_of_def
      Species_fitness_def func_q_def sp_B_def ANIMAL_INV_def deathProbability_def)

lemma membership_inv_rand_draws [simp]:
  "membership_inv (s\<lparr>rand_draws := f\<rparr>) = membership_inv s"
  by (simp add: membership_inv_def)

text \<open>The herbivore of \<open>sim_graze\<close> (fitness \<open>1/8\<close>, death probability \<open>7/20\<close>)
  dies on the draw 0 and survives the draw \<open>1/2\<close>.\<close>

theorem die_cases_witness:
  "(case Animal_die sim_graze 1 of
      Inl e \<Rightarrow> False
    | Inr (death, s') \<Rightarrow> death \<and> map_option loci (heap s' 1) = Some None
        \<and> 1 \<notin> set (case cells (geography s') 0 of Some cell' \<Rightarrow> habitants cell' | None \<Rightarrow> []))
   \<and> (case Animal_die (sim_graze\<lparr>rand_draws := (\<lambda>n. 1/2)\<rparr>) 1 of
      Inl e \<Rightarrow> False
    | Inr (death, s') \<Rightarrow> \<not> death \<and> geography s' = geography sim_graze
        \<and> map_option loci (heap s' 1) = Some (Some 0))"
proof -
  let ?a = "mk_animal [sp_B, sp_R] 0 3 20 0"
  have 1: "rand_draws sim_graze (rand_pos sim_graze) < 1" by (simp add: sim_graze_def)
  from die_cases[OF sim_graze_inv(1) sim_graze_animal(1,2) 1] obtain death s' where
    d: "Animal_die sim_graze 1 = Inr (death, s')"
    and dd: "death = (vekt ?a = 0 \<or>
        rand_draws sim_graze (rand_pos sim_graze) < deathProbability sp_B (fitness_of sp_B ?a))"
    and dt: "death \<longrightarrow> (\<exists>a'. heap s' 1 = Some a' \<and> loci a' = None) \<and>
           (\<forall>c cell'. cells (geography s') c = Some cell' \<longrightarrow> 1 \<notin> set (habitants cell'))"
    by blast
  from dd have death by (simp add: sim_graze_animal) (simp add: sim_graze_def)
  with dt have A: "death \<and> map_option loci (heap s' 1) = Some None
        \<and> 1 \<notin> set (case cells (geography s') 0 of Some cell' \<Rightarrow> habitants cell' | None \<Rightarrow> [])"
    by (auto split: option.splits)
  let ?s2 = "sim_graze\<lparr>rand_draws := (\<lambda>n. 1/2)\<rparr>"
  have i2: "membership_inv ?s2" using sim_graze_inv(1) by simp
  have h2: "heap ?s2 1 = Some ?a" "Species_deref ?s2 (isa ?a) = Inr sp_B"
    by (simp_all add: Species_deref_def sim_graze_def mk_animal_def)
  have 2: "rand_draws ?s2 (rand_pos ?s2) < 1" by simp
  from die_cases[OF i2 h2 2] obtain death2 s2' where
    d2: "Animal_die ?s2 1 = Inr (death2, s2')"
    and dd2: "death2 = (vekt ?a = 0 \<or>
        rand_draws ?s2 (rand_pos ?s2) < deathProbability sp_B (fitness_of sp_B ?a))"
    and df2: "\<not> death2 \<longrightarrow> geography s2' = geography ?s2 \<and>
           (\<exists>a'. heap s2' 1 = Some a' \<and> loci a' = loci ?a)"
    by blast
  from dd2 have "\<not> death2" by (simp add: sim_graze_animal)
  with df2 have B: "\<not> death2 \<and> geography s2' = geography sim_graze
        \<and> map_option loci (heap s2' 1) = Some (Some 0)"
    by (auto simp: mk_animal_def)
  show ?thesis unfolding d d2 using A B by simp
qed

section \<open>The feeding pass\<close>

lemma catch_chance_pos: "q < p \<Longrightarrow> 0 < d \<Longrightarrow> 0 < catch_chance p q d"
  by (simp add: catch_chance_def Let_def)

lemma fit_R: "Species_fitness sp_R 20 3 = 1/8"
  by (simp add: Species_fitness_def func_q_def sp_R_def)

lemma fit_R2: "0 < Species_fitness sp_R2 20 3" "Species_fitness sp_R2 20 3 < 1/8"
proof -
  have e: "1 < exp (3::real)" by simp
  have f: "Species_fitness sp_R2 20 3 = 1 / (1 + exp 3) * (1/4)"
    by (simp add: Species_fitness_def func_q_def sp_R2_def)
  show "0 < Species_fitness sp_R2 20 3"
    unfolding f using one_plus_exp_pos[of 3] by simp
  define x where "x = 1 / (1 + exp (3::real))"
  have "x < 1 / 2"
    unfolding x_def using e one_plus_exp_pos[of 3] by (simp add: divide_less_eq)
  then have "x * (1/4) < 1/8" by simp
  then show "Species_fitness sp_R2 20 3 < 1/8" unfolding f x_def .
qed


lemma sim_pred2_heap:
  "heap sim_pred2 5 = Some pred_a" "heap sim_pred2 7 = Some pred_b"
  by (simp_all add: sim_pred2_def)

lemma pred_fields:
  "isa pred_a = Some 0" "vekt pred_a = 20" "loci pred_a = Some 0" "fitness_cache pred_a = 1/8"
  "isa pred_b = Some 1" "vekt pred_b = 20" "loci pred_b = Some 0"
  "fitness_cache pred_b = Species_fitness sp_R2 20 3"
  by (simp_all add: pred_a_def pred_b_def mk_animal_def fit_R)

lemma sim_pred2_species:
  "Species_deref sim_pred2 (Some 0) = Inr sp_R"
  by (simp add: Species_deref_def sim_pred2_def)

text \<open>The attempt of animal 5 on animal 7 succeeds.\<close>

lemma eat_5_7:
  "Animal_eat sim_pred2 5 7 = Inr (True, sim_pred2\<lparr>rand_pos := 1\<rparr>)"
proof -
  have c2: "Species_fitness sp_R2 20 3 \<noteq> ANIMAL_INV" using fit_R2(1) by (simp add: ANIMAL_INV_def)
  have f1: "Animal_fitness sim_pred2 5 = Inr (1/8, sim_pred2)"
    by (simp add: Animal_fitness_def Animal_deref_def sim_pred2_heap pred_fields ANIMAL_INV_def)
  have f2: "Animal_fitness sim_pred2 7 = Inr (Species_fitness sp_R2 20 3, sim_pred2)"
    using c2 by (simp add: Animal_fitness_def Animal_deref_def sim_pred2_heap pred_fields)
  have cc: "0 < catch_chance (1/8) (Species_fitness sp_R2 20 3) (s_DeltaPhiMax sp_R)"
    by (rule catch_chance_pos[OF fit_R2(2)]) (simp add: sp_R_def)
  have dr: "drand sim_pred2 = (0, sim_pred2\<lparr>rand_pos := 1\<rparr>)"
    by (simp add: drand_def sim_pred2_def)
  show ?thesis
    using cc
    by (simp add: Animal_eat_def f1 f2 Animal_deref_def sim_pred2_heap pred_fields
        sim_pred2_species dr)
qed


lemma sim_pred2_fields:
  "cells (geography sim_pred2) 0 = Some (mk_cell arch_J 0 0 [5, 7])"
  "animals sim_pred2 = [5, 7]"
  by (simp_all add: sim_pred2_def)

text \<open>The turn of animal 5: it consumes animal 7.\<close>

lemma feed_5:
  "Animal_feed sim_pred2 5 =
     Inr ([7], Animal_store (sim_pred2\<lparr>rand_pos := 1\<rparr>) 5
                 (pred_a\<lparr>vekt := 35, fitness_cache := ANIMAL_INV\<rparr>))"
  by (simp add: Animal_feed_def Species_feed_def Animal_deref_def sim_pred2_heap pred_fields
      sim_pred2_species Cell_animals_def Cell_deref_def sim_pred2_fields mk_cell_def
      eat_5_7 Animal_fatten_def sp_R_def)

lemma Animal_feed_dangling:
  "heap s p = None \<Longrightarrow> Animal_feed s p = Inl (DanglingAnimal p)"
  by (simp add: Animal_feed_def Animal_deref_def)

text \<open>
  C2 fails on the code when there are two predatory species.  In \<open>sim_pred2\<close> the
  predators 5 and 7 are of different species and share a cell; 5 is the fitter, so
  \<open>feedBeasts\<close> is \<open>[5, 7]\<close>.  In its turn animal 5 consumes animal 7, which is then
  erased from \<open>animals\<close> and deleted.  Its pointer is still in \<open>feedBeasts\<close>, and the loop
  goes on to give the deleted animal its feeding turn: \<open>feed\<close> is called on an object
  that is no longer allocated.
\<close>

theorem feed_loop_consumed_predator:
  "fitness_cache pred_b < fitness_cache pred_a
   \<and> Animal_feed sim_pred2 5 =
       Inr ([7], Animal_store (sim_pred2\<lparr>rand_pos := 1\<rparr>) 5
                   (pred_a\<lparr>vekt := 35, fitness_cache := ANIMAL_INV\<rparr>))
   \<and> (case bind_e (Animal_feed sim_pred2 5) (\<lambda>(food, s1). erase_food s1 food) of
        Inl e \<Rightarrow> False
      | Inr s3 \<Rightarrow> heap s3 7 = None \<and> animals s3 = [5])
   \<and> feed_loop sim_pred2 [5, 7] = Inl (DanglingAnimal 7)"
proof -
  have "(case bind_e (Animal_feed sim_pred2 5) (\<lambda>(food, s1). erase_food s1 food) of
        Inl e \<Rightarrow> False
      | Inr s3 \<Rightarrow> heap s3 7 = None \<and> animals s3 = [5])"
    by (simp add: feed_5 sim_pred2_fields set_erase_def Animal_delete_def Animal_deref_def
        sim_pred2_heap pred_fields Cell_removeAnimal_def Cell_deref_def mk_cell_def
        Animal_store_def Cell_store_def)
  moreover
  have "feed_loop sim_pred2 [5, 7] = Inl (DanglingAnimal 7)"
    by (simp add: feed_5 sim_pred2_fields set_erase_def Animal_delete_def Animal_deref_def
        sim_pred2_heap pred_fields Cell_removeAnimal_def Cell_deref_def mk_cell_def
        Animal_feed_dangling Animal_store_def Cell_store_def)
  ultimately show ?thesis
    using fit_R2(2) by (simp add: feed_5 pred_fields)
qed

section \<open>The breeding pass\<close>

lemma cellMates_loop_cong:
  "(\<forall>p \<in> set ps. traits s' p = traits s p) \<Longrightarrow>
     cellMates_loop s' g m ps = cellMates_loop s g m ps"
proof (induction ps)
  case Nil
  then show ?case by simp
next
  case (Cons p ps)
  then have t: "traits s' p = traits s p" and r: "cellMates_loop s' g m ps = cellMates_loop s g m ps"
    by simp_all
  show ?case
  proof (cases "heap s p")
    case None
    with t have "heap s' p = None" by (simp add: traits_def)
    with None show ?thesis by (simp add: Animal_deref_def)
  next
    case (Some a)
    with t obtain a' where a': "heap s' p = Some a'" "isa a' = isa a" "alder a' = alder a"
      by (auto simp: traits_def)
    with Some r show ?thesis by (simp add: Animal_deref_def)
  qed
qed

lemma cellMates_loop_drop_new:
  assumes "\<forall>p \<in> set ps. \<not> P p \<longrightarrow> (\<exists>a. heap s p = Some a \<and> isa a \<noteq> g)"
  shows "cellMates_loop s g m ps = cellMates_loop s g m (filter P ps)"
  using assms
proof (induction ps)
  case Nil
  then show ?case by simp
next
  case (Cons p ps)
  then have r: "cellMates_loop s g m ps = cellMates_loop s g m (filter P ps)" by simp
  show ?case
  proof (cases "P p")
    case True
    with r show ?thesis by simp
  next
    case False
    with Cons.prems obtain a where "heap s p = Some a" "isa a \<noteq> g" by auto
    with False r show ?thesis
      by (cases "cellMates_loop s g m (filter P ps)") (simp_all add: Animal_deref_def)
  qed
qed


lemma breed_inv_resident:
  "breed_inv s \<Longrightarrow> cells (geography s) c = Some cell \<Longrightarrow> p \<in> set (habitants cell) \<Longrightarrow>
     p < next_ptr s \<and> (\<exists>a. heap s p = Some a \<and> loci a = Some c)"
  unfolding breed_inv_def by blast

lemma births_old_cell:
  assumes "births c g s s'" and "cells (geography s) c = Some cell"
  shows "\<exists>cell'. cells (geography s') c = Some cell' \<and>
            filter (\<lambda>p. p < next_ptr s) (habitants cell') = habitants cell \<and>
            (\<forall>p \<in> set (habitants cell'). next_ptr s \<le> p \<longrightarrow>
               p < next_ptr s' \<and>
               (\<exists>a. heap s' p = Some a \<and> isa a = Some g \<and> loci a = Some c))"
  using assms unfolding births_def by simp

lemma births_traits:
  "births c g s s' \<Longrightarrow> p < next_ptr s \<Longrightarrow> traits s' p = traits s p"
  unfolding births_def by simp

lemma births_other:
  "births c g s s' \<Longrightarrow> c' \<noteq> c \<Longrightarrow> cells (geography s') c' = cells (geography s) c'"
  unfolding births_def by simp

lemma births_next: "births c g s s' \<Longrightarrow> next_ptr s \<le> next_ptr s'"
  unfolding births_def by simp

lemma births_none:
  "births c g s s' \<Longrightarrow> cells (geography s) c = None \<Longrightarrow> cells (geography s') c = None"
  unfolding births_def by simp

lemma traits_Some:
  "traits s' p = traits s p \<Longrightarrow> heap s p = Some a \<Longrightarrow>
     \<exists>a'. heap s' p = Some a' \<and> isa a' = isa a \<and> alder a' = alder a \<and> loci a' = loci a"
  by (auto simp: traits_def)

lemma births_breed_inv:
  assumes "breed_inv s" and "births c g s s'"
  shows "breed_inv s'"
  unfolding breed_inv_def
proof (intro allI impI)
  fix c' cell' p
  assume h: "cells (geography s') c' = Some cell' \<and> p \<in> set (habitants cell')"
  show "p < next_ptr s' \<and> (\<exists>a. heap s' p = Some a \<and> loci a = Some c')"
  proof (cases "c' = c")
    case False
    with h births_other[OF assms(2)] have "cells (geography s) c' = Some cell'" by simp
    from breed_inv_resident[OF assms(1) this] h obtain a where
      p: "p < next_ptr s" "heap s p = Some a" "loci a = Some c'" by blast
    from traits_Some[OF births_traits[OF assms(2) p(1)] p(2)] p births_next[OF assms(2)]
    show ?thesis by auto
  next
    case True
    with h births_none[OF assms(2)] obtain cell where cell: "cells (geography s) c = Some cell"
      by (cases "cells (geography s) c") auto
    from births_old_cell[OF assms(2) cell] h True have
      f: "filter (\<lambda>p. p < next_ptr s) (habitants cell') = habitants cell"
      and n: "\<forall>p \<in> set (habitants cell'). next_ptr s \<le> p \<longrightarrow>
           p < next_ptr s' \<and> (\<exists>a. heap s' p = Some a \<and> isa a = Some g \<and> loci a = Some c)"
      by simp_all
    show ?thesis
    proof (cases "p < next_ptr s")
      case True
      with h have "p \<in> set (filter (\<lambda>p. p < next_ptr s) (habitants cell'))" by simp
      then have "p \<in> set (habitants cell)" unfolding f .
      from breed_inv_resident[OF assms(1) cell this] obtain a where
        p: "p < next_ptr s" "heap s p = Some a" "loci a = Some c" by blast
      from traits_Some[OF births_traits[OF assms(2) p(1)] p(2)] p births_next[OF assms(2)] \<open>c' = c\<close>
      show ?thesis by auto
    next
      case False
      with n h \<open>c' = c\<close> show ?thesis by auto
    qed
  qed
qed


lemma births_frame:
  assumes "breed_inv s" and "births c g s s'" and "c' \<noteq> c \<or> g' \<noteq> g"
  shows "Cell_cellMates s' c' (Some g') bo = Cell_cellMates s c' (Some g') bo"
proof (cases "cells (geography s) c'")
  case None
  then have "cells (geography s') c' = None"
    using births_other[OF assms(2), of c'] births_none[OF assms(2)] by (cases "c' = c") simp_all
  with None show ?thesis by (simp add: Cell_cellMates_def Cell_deref_def)
next
  case (Some cell)
  have old: "traits s' p = traits s p" if "p \<in> set (habitants cell)" for p
    using births_traits[OF assms(2)] breed_inv_resident[OF assms(1) Some that] by simp
  show ?thesis
  proof (cases "c' = c")
    case False
    then have "cells (geography s') c' = Some cell"
      using births_other[OF assms(2), of c'] Some by simp
    with Some show ?thesis
      using cellMates_loop_cong[of "habitants cell" s' s] old
      by (simp add: Cell_cellMates_def Cell_deref_def Let_def)
  next
    case True
    with assms(3) have g: "g' \<noteq> g" by simp
    from births_old_cell[OF assms(2)] Some True obtain cell' where
      c': "cells (geography s') c = Some cell'"
      and f: "filter (\<lambda>p. p < next_ptr s) (habitants cell') = habitants cell"
      and n: "\<forall>p \<in> set (habitants cell'). next_ptr s \<le> p \<longrightarrow>
           p < next_ptr s' \<and> (\<exists>a. heap s' p = Some a \<and> isa a = Some g \<and> loci a = Some c)"
      by blast
    have drop: "\<forall>p \<in> set (habitants cell'). \<not> p < next_ptr s \<longrightarrow>
                  (\<exists>a. heap s' p = Some a \<and> isa a \<noteq> Some g')"
      using n g by fastforce
    have "cellMates_loop s' (Some g') m (habitants cell') =
          cellMates_loop s' (Some g') m (habitants cell)" for m
      using cellMates_loop_drop_new[OF drop, of m] unfolding f .
    moreover have "cellMates_loop s' (Some g') m (habitants cell) =
          cellMates_loop s (Some g') m (habitants cell)" for m
      using cellMates_loop_cong[of "habitants cell" s' s] old by simp
    ultimately show ?thesis
      using Some c' True by (simp add: Cell_cellMates_def Cell_deref_def Let_def)
  qed
qed

lemma births_refl: "breed_inv s \<Longrightarrow> births c g s s"
  unfolding births_def
proof (intro conjI allI impI)
  fix cell
  assume i: "breed_inv s" and c: "cells (geography s) c = Some cell"
  have "\<forall>p \<in> set (habitants cell). p < next_ptr s"
    using breed_inv_resident[OF i c] by blast
  then have "filter (\<lambda>p. p < next_ptr s) (habitants cell) = habitants cell"
    by (simp add: filter_id_conv)
  moreover have "\<forall>p \<in> set (habitants cell). next_ptr s \<le> p \<longrightarrow>
               p < next_ptr s \<and> (\<exists>a. heap s p = Some a \<and> isa a = Some g \<and> loci a = Some c)"
    using breed_inv_resident[OF i c] by fastforce
  ultimately show "\<exists>cell'. cells (geography s) c = Some cell' \<and>
            filter (\<lambda>p. p < next_ptr s) (habitants cell') = habitants cell \<and>
            (\<forall>p \<in> set (habitants cell'). next_ptr s \<le> p \<longrightarrow>
               p < next_ptr s \<and>
               (\<exists>a. heap s p = Some a \<and> isa a = Some g \<and> loci a = Some c))"
    using c by simp
qed simp_all


lemma births_trans:
  assumes "births c g s s1" and "births c g s1 s2"
  shows "births c g s s2"
  unfolding births_def
proof (intro conjI allI impI)
  show "next_ptr s \<le> next_ptr s2"
    using births_next[OF assms(1)] births_next[OF assms(2)] by simp
next
  fix p
  assume "p < next_ptr s"
  then show "traits s2 p = traits s p"
    using births_traits[OF assms(1), of p] births_traits[OF assms(2), of p]
      births_next[OF assms(1)] by simp
next
  fix c'
  assume "c' \<noteq> c"
  then show "cells (geography s2) c' = cells (geography s) c'"
    using births_other[OF assms(1), of c'] births_other[OF assms(2), of c'] by simp
next
  assume "cells (geography s) c = None"
  then show "cells (geography s2) c = None"
    using births_none[OF assms(1)] births_none[OF assms(2)] by simp
next
  fix cell
  assume c0: "cells (geography s) c = Some cell"
  from births_old_cell[OF assms(1) c0] obtain cell1 where
    c1: "cells (geography s1) c = Some cell1"
    and f1: "filter (\<lambda>p. p < next_ptr s) (habitants cell1) = habitants cell"
    and n1: "\<forall>p \<in> set (habitants cell1). next_ptr s \<le> p \<longrightarrow>
           p < next_ptr s1 \<and> (\<exists>a. heap s1 p = Some a \<and> isa a = Some g \<and> loci a = Some c)"
    by blast
  from births_old_cell[OF assms(2) c1] obtain cell2 where
    c2: "cells (geography s2) c = Some cell2"
    and f2: "filter (\<lambda>p. p < next_ptr s1) (habitants cell2) = habitants cell1"
    and n2: "\<forall>p \<in> set (habitants cell2). next_ptr s1 \<le> p \<longrightarrow>
           p < next_ptr s2 \<and> (\<exists>a. heap s2 p = Some a \<and> isa a = Some g \<and> loci a = Some c)"
    by blast
  have le: "next_ptr s \<le> next_ptr s1" "next_ptr s1 \<le> next_ptr s2"
    using births_next[OF assms(1)] births_next[OF assms(2)] by simp_all
  have "filter (\<lambda>p. p < next_ptr s) (habitants cell2) =
        filter (\<lambda>p. p < next_ptr s) (filter (\<lambda>p. p < next_ptr s1) (habitants cell2))"
    using le(1) by (simp add: filter_filter) (rule filter_cong, auto)
  then have f: "filter (\<lambda>p. p < next_ptr s) (habitants cell2) = habitants cell"
    unfolding f2 f1 .
  have n: "p < next_ptr s2 \<and> (\<exists>a. heap s2 p = Some a \<and> isa a = Some g \<and> loci a = Some c)"
    if p: "p \<in> set (habitants cell2)" "next_ptr s \<le> p" for p
  proof (cases "next_ptr s1 \<le> p")
    case True
    with n2 p show ?thesis by blast
  next
    case False
    then have lt: "p < next_ptr s1" by simp
    with p have "p \<in> set (filter (\<lambda>p. p < next_ptr s1) (habitants cell2))" by simp
    then have "p \<in> set (habitants cell1)" unfolding f2 .
    with n1 p obtain a where a: "heap s1 p = Some a" "isa a = Some g" "loci a = Some c" by blast
    from traits_Some[OF births_traits[OF assms(2) lt] a(1)] a lt le
    show ?thesis by auto
  qed
  show "\<exists>cell'. cells (geography s2) c = Some cell' \<and>
            filter (\<lambda>p. p < next_ptr s) (habitants cell') = habitants cell \<and>
            (\<forall>p \<in> set (habitants cell'). next_ptr s \<le> p \<longrightarrow>
               p < next_ptr s2 \<and>
               (\<exists>a. heap s2 p = Some a \<and> isa a = Some g \<and> loci a = Some c))"
    using c2 f n by blast
qed


lemma births_same:
  assumes "breed_inv s" and "next_ptr s' = next_ptr s" and "geography s' = geography s"
    and "\<forall>p. traits s' p = traits s p"
  shows "births c g s s'"
  using births_refl[OF assms(1), of c g] assms(2,3,4)
  unfolding births_def traits_def
  by (auto simp: map_option_case split: option.splits)


lemma traits_store:
  "traits (Animal_store s b a') p =
     (if p = b then Some (isa a', alder a', loci a') else traits s p)"
  by (simp add: traits_def)

lemma births_store:
  assumes "breed_inv s" and "heap s b = Some a"
    and "isa a' = isa a" and "alder a' = alder a" and "loci a' = loci a"
  shows "births c g s (Animal_store s b a')"
proof (rule births_same[OF assms(1)])
  show "\<forall>p. traits (Animal_store s b a') p = traits s p"
    using assms(2-5) by (simp add: traits_store) (simp add: traits_def)
qed simp_all

lemma births_rand_pos:
  assumes "breed_inv s"
  shows "births c g s (s\<lparr>rand_pos := n\<rparr>)"
  by (rule births_same[OF assms]) (simp_all add: traits_def)

lemma birthChance_births:
  assumes "breed_inv s" and "Species_birthChance s sp b N = Inr (bc, s1)"
  shows "births c g s s1"
proof -
  from assms(2) obtain phi where f: "Animal_fitness s b = Inr (phi, s1)"
    by (cases "Animal_fitness s b") (auto simp: Species_birthChance_def)
  then obtain a where a: "heap s b = Some a"
    by (cases "heap s b") (auto simp: Animal_fitness_def Animal_deref_def)
  show ?thesis
  proof (cases "fitness_cache a = ANIMAL_INV")
    case False
    with f a have "s1 = s" by (simp add: Animal_fitness_def Animal_deref_def)
    then show ?thesis using births_refl[OF assms(1)] by simp
  next
    case True
    with f a obtain x where "s1 = Animal_store s b (a\<lparr>fitness_cache := x\<rparr>)"
      by (cases "Species_deref s (isa a)")
        (auto simp: Animal_fitness_def Animal_deref_def Let_def)
    then show ?thesis using births_store[OF assms(1) a, of "a\<lparr>fitness_cache := x\<rparr>"] by simp
  qed
qed


text \<open>The birth of one animal in the cell of its parent.\<close>

lemma Animal_new_births:
  assumes "breed_inv s" and "Animal_new s (Some g) (Some c) = Inr (child, s')"
  shows "births c g s s'"
proof -
  let ?n = "next_ptr s"
  from assms(2) obtain sp where sp: "Species_deref s (Some g) = Inr sp"
    by (cases "Species_deref s (Some g)") (auto simp: Animal_new_def)
  let ?nb = "\<lparr>isa = Some g, vekt = s_v_fod sp, alder = 0, loci = None,
              fitness_cache = ANIMAL_INV\<rparr>"
  let ?s1 = "(Animal_store s ?n ?nb)\<lparr>next_ptr := Suc ?n\<rparr>"
  from assms(2) sp obtain moved s2 where
    m: "Animal_moveTo ?s1 ?n (Some c) = Inr (moved, s2)"
    by (cases "Animal_moveTo ?s1 ?n (Some c)") (auto simp: Animal_new_def Let_def)
  from assms(2) sp m obtain an where
    an: "heap s2 ?n = Some an"
    and s': "s' = Animal_store s2 ?n (an\<lparr>alder := 0, fitness_cache := Species_fitness sp (vekt an) 0\<rparr>)"
    by (cases "heap s2 ?n") (auto simp: Animal_new_def Let_def Animal_deref_def)
  have old: "traits s p = traits ?s1 p" if "p < ?n" for p
    using that by (simp add: traits_def)
  from m show ?thesis
  proof (cases rule: moveTo_cases)
    case null
    then show ?thesis by simp
  next
    case (refused d cell arch)
    with an s' have e: "s' = Animal_store ?s1 ?n (an\<lparr>alder := 0, fitness_cache := Species_fitness sp (vekt an) 0\<rparr>)"
      by simp
    show ?thesis
      unfolding births_def
    proof (intro conjI allI impI)
      fix cell0
      assume c0: "cells (geography s) c = Some cell0"
      have "\<forall>p \<in> set (habitants cell0). p < next_ptr s"
        using breed_inv_resident[OF assms(1) c0] by blast
      then show "\<exists>cell'. cells (geography s') c = Some cell' \<and>
            filter (\<lambda>p. p < next_ptr s) (habitants cell') = habitants cell0 \<and>
            (\<forall>p \<in> set (habitants cell'). next_ptr s \<le> p \<longrightarrow>
               p < next_ptr s' \<and>
               (\<exists>a. heap s' p = Some a \<and> isa a = Some g \<and> loci a = Some c))"
        using c0 by (auto simp: e filter_id_conv)
    qed (simp_all add: e traits_def)
  next
    case (moved d cell arch a)
    then have dc: "d = c" by simp
    from moved have a: "a = ?nb" by simp
    from moved dc have c0: "cells (geography s) c = Some cell" by simp
    have lt: "\<forall>p \<in> set (habitants cell). p < next_ptr s"
      using breed_inv_resident[OF assms(1) c0] by blast
    then have notin: "?n \<notin> set (habitants cell)" by auto
    have f: "filter (\<lambda>p. p < ?n) (set_insert ?n (habitants cell)) = habitants cell"
      using lt notin by (simp add: set_insert_def filter_insort_triv filter_id_conv)
    from moved(8) an s' dc a obtain an' where
      e: "s' = Animal_store (Animal_store (Cell_store ?s1 c
                (cell\<lparr>habitants := set_insert ?n (habitants cell)\<rparr>)) ?n (?nb\<lparr>loci := Some c\<rparr>))
              ?n an'" and an': "isa an' = Some g" "loci an' = Some c"
      by auto
    show ?thesis
      unfolding births_def
    proof (intro conjI allI impI)
      fix cell0
      assume "cells (geography s) c = Some cell0"
      with c0 have "cell0 = cell" by simp
      then show "\<exists>cell'. cells (geography s') c = Some cell' \<and>
            filter (\<lambda>p. p < next_ptr s) (habitants cell') = habitants cell0 \<and>
            (\<forall>p \<in> set (habitants cell'). next_ptr s \<le> p \<longrightarrow>
               p < next_ptr s' \<and>
               (\<exists>a. heap s' p = Some a \<and> isa a = Some g \<and> loci a = Some c))"
        using f lt an' by (auto simp: e)
    qed (use c0 in \<open>simp_all add: e traits_def\<close>)
  next
    case (moved_from d cell arch a old' ocell)
    then have "a = ?nb" by simp
    then have "loci a = None" by simp
    with moved_from(6) show ?thesis by simp
  qed
qed


lemma Animal_breed_births:
  assumes "breed_inv s" and "heap s b = Some a" and "isa a = Some g" and "loci a = Some c"
    and "Animal_breed s b = Inr (off, s')"
  shows "births c g s s'"
proof -
  from assms(2,5) obtain sp where sp: "Species_deref s (isa a) = Inr sp"
    by (cases "Species_deref s (isa a)") (auto simp: Animal_breed_def Animal_deref_def)
  show ?thesis
  proof (cases "alder a \<noteq> 0 \<and> Species_canBreed sp (vekt a)")
    case False
    with assms(2,5) sp have "s' = s" by (auto simp: Animal_breed_def Animal_deref_def)
    then show ?thesis using births_refl[OF assms(1)] by simp
  next
    case True
    let ?a1 = "a\<lparr>vekt := vekt a - Species_birthloss sp, fitness_cache := ANIMAL_INV\<rparr>"
    let ?s1 = "Animal_store s b ?a1"
    have b1: "births c g s ?s1" by (rule births_store[OF assms(1,2)]) simp_all
    have i1: "breed_inv ?s1" by (rule births_breed_inv[OF assms(1) b1])
    from True assms(2,3,4,5) sp obtain child where
      "Animal_new ?s1 (Some g) (Some c) = Inr (child, s')"
      by (cases "Animal_new ?s1 (Some g) (Some c)")
        (auto simp: Animal_breed_def Animal_deref_def Let_def)
    from births_trans[OF b1 Animal_new_births[OF i1 this]] show ?thesis .
  qed
qed

lemma breed_beasts_births:
  assumes "breed_inv s"
    and "\<forall>b \<in> set bs. b < next_ptr s \<and> (\<exists>a. heap s b = Some a \<and> isa a = Some g \<and> loci a = Some c)"
    and "breed_beasts s g N bs = Inr (r, s')"
  shows "births c g s s'"
  using assms
proof (induction bs arbitrary: s r)
  case Nil
  then show ?case using births_refl by simp
next
  case (Cons b bs)
  from Cons.prems(3) obtain sp where sp: "Species_deref s (Some g) = Inr sp"
    by (cases "Species_deref s (Some g)") auto
  from Cons.prems(3) sp obtain bc s1 where
    bc: "Species_birthChance s sp b N = Inr (bc, s1)"
    by (cases "Species_birthChance s sp b N") auto
  let ?r = "fst (drand s1)"
  let ?s2 = "snd (drand s1)"
  have s2: "?s2 = s1\<lparr>rand_pos := Suc (rand_pos s1)\<rparr>" by (simp add: drand_def)
  from Cons.prems(3) sp bc obtain off s3 where
    br: "(if ?r < bc then Animal_breed ?s2 b else Inr (None, ?s2)) = Inr (off, s3)"
    by (cases "if ?r < bc then Animal_breed ?s2 b else Inr (None, ?s2)")
      (auto simp: split_beta Let_def)
  from Cons.prems(3) sp bc br obtain retval where
    rest: "breed_beasts s3 g N bs = Inr (retval, s')"
    by (cases "breed_beasts s3 g N bs") (auto simp: split_beta Let_def)
  have b1: "births c g s s1" by (rule birthChance_births[OF Cons.prems(1) bc])
  have i1: "breed_inv s1" by (rule births_breed_inv[OF Cons.prems(1) b1])
  have b2: "births c g s1 ?s2" unfolding s2 by (rule births_rand_pos[OF i1])
  have i2: "breed_inv ?s2" by (rule births_breed_inv[OF i1 b2])
  have b02: "births c g s ?s2" by (rule births_trans[OF b1 b2])
  have keep: "p < next_ptr t' \<and> (\<exists>a. heap t' p = Some a \<and> isa a = Some g \<and> loci a = Some c)"
    if "births c g s t'" "p \<in> set (b # bs)" for t' p
  proof -
    from Cons.prems(2) that(2) obtain a where
      a: "p < next_ptr s" "heap s p = Some a" "isa a = Some g" "loci a = Some c" by auto
    from traits_Some[OF births_traits[OF that(1) a(1)] a(2)] a births_next[OF that(1)]
    show ?thesis by auto
  qed
  have b3: "births c g ?s2 s3"
  proof (cases "?r < bc")
    case False
    with br have "s3 = ?s2" by simp
    then show ?thesis using births_refl[OF i2] by simp
  next
    case True
    with br have ab: "Animal_breed ?s2 b = Inr (off, s3)" by simp
    from keep[OF b02, of b] obtain a where "heap ?s2 b = Some a" "isa a = Some g" "loci a = Some c"
      by auto
    from Animal_breed_births[OF i2 this ab] show ?thesis .
  qed
  have b03: "births c g s s3" by (rule births_trans[OF b02 b3])
  have i3: "breed_inv s3" by (rule births_breed_inv[OF Cons.prems(1) b03])
  have "\<forall>b \<in> set bs. b < next_ptr s3 \<and> (\<exists>a. heap s3 b = Some a \<and> isa a = Some g \<and> loci a = Some c)"
    using keep[OF b03] by simp
  from Cons.IH[OF i3 this rest] have "births c g s3 s'" .
  from births_trans[OF b03 this] show ?case .
qed


lemma cellMates_loop_member:
  "cellMates_loop s g m ps = Inr bs \<Longrightarrow> b \<in> set bs \<Longrightarrow>
     b \<in> set ps \<and> (\<exists>a. heap s b = Some a \<and> isa a = g)"
proof (induction ps arbitrary: bs)
  case Nil
  then show ?case by simp
next
  case (Cons p ps)
  from Cons.prems(1) obtain a where a: "heap s p = Some a"
    by (cases "heap s p") (auto simp: Animal_deref_def)
  from Cons.prems(1) a obtain retval where
    r: "cellMates_loop s g m ps = Inr retval"
    and bs: "bs = (if isa a = g \<and> alder a \<ge> m then p # retval else retval)"
    by (cases "cellMates_loop s g m ps") (auto simp: Animal_deref_def)
  show ?case
  proof (cases "b \<in> set retval")
    case True
    from Cons.IH[OF r True] show ?thesis by simp
  next
    case False
    with Cons.prems(2) bs have "b = p" "isa a = g" by (auto split: if_splits)
    with a show ?thesis by simp
  qed
qed

lemma cellMates_residents:
  assumes "breed_inv s" and "Cell_cellMates s c (Some g) False = Inr bs"
  shows "\<forall>b \<in> set bs. b < next_ptr s \<and> (\<exists>a. heap s b = Some a \<and> isa a = Some g \<and> loci a = Some c)"
proof
  fix b
  assume b: "b \<in> set bs"
  from assms(2) obtain cell where cell: "cells (geography s) c = Some cell"
    and l: "cellMates_loop s (Some g) 0 (habitants cell) = Inr bs"
    by (cases "cells (geography s) c") (auto simp: Cell_cellMates_def Cell_deref_def)
  from cellMates_loop_member[OF l b] obtain a where
    m: "b \<in> set (habitants cell)" and a: "heap s b = Some a" "isa a = Some g" by blast
  from breed_inv_resident[OF assms(1) cell m] a
  show "b < next_ptr s \<and> (\<exists>a. heap s b = Some a \<and> isa a = Some g \<and> loci a = Some c)"
    by auto
qed

lemma breed_inv_animals [simp]: "breed_inv (s\<lparr>animals := x\<rparr>) = breed_inv s"
  by (simp add: breed_inv_def)

lemma Cell_cellMates_animals [simp]:
  "Cell_cellMates (s\<lparr>animals := x\<rparr>) c g bo = Cell_cellMates s c g bo"
proof -
  have "cellMates_loop (s\<lparr>animals := x\<rparr>) g m ps = cellMates_loop s g m ps" for m ps
    by (rule cellMates_loop_cong) (simp add: traits_def)
  then show ?thesis by (simp add: Cell_cellMates_def Cell_deref_def Let_def)
qed

lemma Cell_breed_eq:
  assumes "breed_inv s" and "distinct gs"
    and "\<forall>g \<in> set gs. Cell_cellMates s c (Some g) False = Cell_cellMates s0 c (Some g) False"
  shows "Cell_breed s c gs = Cell_breed_N (occupants s0) s c gs \<and>
         (\<forall>r s1. Cell_breed s c gs = Inr (r, s1) \<longrightarrow>
            breed_inv s1 \<and>
            (\<forall>c' g'. c' \<noteq> c \<longrightarrow>
               Cell_cellMates s1 c' (Some g') False = Cell_cellMates s c' (Some g') False))"
  using assms
proof (induction gs arbitrary: s)
  case Nil
  then show ?case by simp
next
  case (Cons g gs)
  show ?case
  proof (cases "Cell_cellMates s c (Some g) False")
    case (Inl e)
    then show ?thesis by simp
  next
    case (Inr bs)
    have "Cell_cellMates s0 c (Some g) False = Inr bs"
      using Cons.prems(3) Inr by simp
    then have N: "occupants s0 c g = int (length bs)" by (simp add: occupants_def)
    show ?thesis
    proof (cases "breed_beasts s g (int (length bs)) bs")
      case (Inl e)
      with Inr N show ?thesis by simp
    next
      case (Inr rs)
      obtain r1 s1 where rs: "rs = (r1, s1)" by (cases rs)
      note bb = Inr[unfolded rs]
      have b: "births c g s s1"
        by (rule breed_beasts_births[OF Cons.prems(1) cellMates_residents[OF Cons.prems(1) \<open>Cell_cellMates s c (Some g) False = Inr bs\<close>] bb])
      have i1: "breed_inv s1" by (rule births_breed_inv[OF Cons.prems(1) b])
      have d: "distinct gs" "g \<notin> set gs" using Cons.prems(2) by simp_all
      have fr: "\<forall>g' \<in> set gs. Cell_cellMates s1 c (Some g') False = Cell_cellMates s0 c (Some g') False"
      proof
        fix g'
        assume g': "g' \<in> set gs"
        with d have "g' \<noteq> g" by auto
        then have "Cell_cellMates s1 c (Some g') False = Cell_cellMates s c (Some g') False"
          using births_frame[OF Cons.prems(1) b, of c g' False] by simp
        with Cons.prems(3) g' show "Cell_cellMates s1 c (Some g') False = Cell_cellMates s0 c (Some g') False"
          by simp
      qed
      note IH = Cons.IH[OF i1 d(1) fr]
      have oth: "Cell_cellMates s1 c' (Some g') False = Cell_cellMates s c' (Some g') False"
        if "c' \<noteq> c" for c' g'
        using births_frame[OF Cons.prems(1) b, of c' g' False] that by simp
      have eq: "Cell_breed s c (g # gs) = Cell_breed_N (occupants s0) s c (g # gs)"
        using \<open>Cell_cellMates s c (Some g) False = Inr bs\<close> N bb IH by simp
      have post: "\<forall>r s2. Cell_breed s c (g # gs) = Inr (r, s2) \<longrightarrow>
            breed_inv s2 \<and>
            (\<forall>c' g'. c' \<noteq> c \<longrightarrow>
               Cell_cellMates s2 c' (Some g') False = Cell_cellMates s c' (Some g') False)"
      proof (intro allI impI)
        fix r s2
        assume h: "Cell_breed s c (g # gs) = Inr (r, s2)"
        then obtain r2 where "Cell_breed s1 c gs = Inr (r2, s2)"
          using \<open>Cell_cellMates s c (Some g) False = Inr bs\<close> bb
          by (cases "Cell_breed s1 c gs") auto
        with IH have "breed_inv s2" and
          "\<forall>c' g'. c' \<noteq> c \<longrightarrow>
               Cell_cellMates s2 c' (Some g') False = Cell_cellMates s1 c' (Some g') False"
          by blast+
        with oth show "breed_inv s2 \<and>
            (\<forall>c' g'. c' \<noteq> c \<longrightarrow>
               Cell_cellMates s2 c' (Some g') False = Cell_cellMates s c' (Some g') False)"
          by simp
      qed
      from eq post show ?thesis by blast
    qed
  qed
qed


lemma breeding_pass_eq:
  assumes "breed_inv s" and "distinct cs" and "distinct gs"
    and "\<forall>c \<in> set cs. \<forall>g \<in> set gs.
           Cell_cellMates s c (Some g) False = Cell_cellMates s0 c (Some g) False"
  shows "breeding_pass s gs cs = breeding_pass_N (occupants s0) s gs cs"
  using assms(1,2,4)
proof (induction cs arbitrary: s)
  case Nil
  then show ?case by simp
next
  case (Cons c cs)
  have here: "\<forall>g \<in> set gs. Cell_cellMates s c (Some g) False = Cell_cellMates s0 c (Some g) False"
    using Cons.prems(3) by simp
  note cb = Cell_breed_eq[OF Cons.prems(1) assms(3) here]
  from cb have eqN: "Cell_breed_N (occupants s0) s c gs = Cell_breed s c gs" by simp
  show ?case
  proof (cases "Cell_breed s c gs")
    case (Inl e)
    then show ?thesis by (simp add: eqN)
  next
    case (Inr rs)
    obtain nb s1 where rs: "rs = (nb, s1)" by (cases rs)
    note r = Inr[unfolded rs]
    from cb r have i1: "breed_inv s1"
      and fr: "\<forall>c' g'. c' \<noteq> c \<longrightarrow>
               Cell_cellMates s1 c' (Some g') False = Cell_cellMates s c' (Some g') False"
      by blast+
    let ?s1 = "s1\<lparr>animals := fold set_insert nb (animals s1)\<rparr>"
    have d: "distinct cs" "c \<notin> set cs" using Cons.prems(2) by simp_all
    have rest: "\<forall>c' \<in> set cs. \<forall>g \<in> set gs.
           Cell_cellMates ?s1 c' (Some g) False = Cell_cellMates s0 c' (Some g) False"
    proof (intro ballI)
      fix c' g
      assume c': "c' \<in> set cs" and g: "g \<in> set gs"
      with d have "c' \<noteq> c" by auto
      with fr have "Cell_cellMates s1 c' (Some g) False = Cell_cellMates s c' (Some g) False"
        by simp
      with Cons.prems(3) c' g
      show "Cell_cellMates ?s1 c' (Some g) False = Cell_cellMates s0 c' (Some g) False"
        by simp
    qed
    have i1': "breed_inv ?s1" using i1 by simp
    from Cons.IH[OF i1' d(1) rest] r show ?thesis by (simp add: eqN)
  qed
qed

text \<open>
  C3, amended.  An offspring becomes a resident of the cell of its parent when it is
  born, and is inserted into the population when \<open>Cell::breed\<close> of that cell has
  returned; nothing is kept back to the end of the pass.  All the same the count
  \<open>largeN\<close> of every evaluation of \<open>birthChance\<close> is the number of occupants of that
  species that the cell had before the pass: in a state where every resident is an
  allocated animal located in its cell, a pass that visits every cell once and every
  species once is the pass that reads \<open>largeN\<close> from the counts of the state before it.
\<close>

theorem breeding_counts_before_pass:
  assumes "breed_inv s" and "distinct cs" and "distinct allSpecies"
  shows "breeding_pass s allSpecies cs = breeding_pass_N (occupants s) s allSpecies cs"
  by (rule breeding_pass_eq[OF assms]) simp


lemma fit_B: "1 \<le> w \<Longrightarrow> Species_fitness sp_B w a = 1/8"
  by (simp add: Species_fitness_def func_q_def sp_B_def)

lemma herb_fields:
  "isa herb = Some 0" "vekt herb = 20" "alder herb = 3" "loci herb = Some 0"
  "fitness_cache herb = 1/8"
  by (simp_all add: herb_def mk_animal_def fit_B)

lemma sim_breed_fields:
  "cells (geography sim_breed) 0 = Some (mk_cell arch_J 0 0 [5, 7])"
  "heap sim_breed 5 = Some herb" "heap sim_breed 7 = Some herb"
  "animals sim_breed = [5, 7]" "next_ptr sim_breed = 8" "species sim_breed = [sp_B]"
  "rand_draws sim_breed = (\<lambda>n. 0)"
  by (simp_all add: sim_breed_def)



lemmas breed_eval =
  Cell_cellMates_def Cell_deref_def Animal_deref_def sim_breed_fields herb_fields
  Species_deref_def Species_birthChance_def Animal_fitness_def drand_def
  Animal_breed_def Species_canBreed_def Species_birthloss_def sp_B_def Let_def Animal_new_def
  Animal_moveTo_def Cell_addAnimal_def Archetype_deref_def mk_cell_def
  arch_J_def set_insert_def ANIMAL_INV_def Animal_store_def Cell_store_def
  Species_fitness_def func_q_def

text \<open>
  C3, as stated, fails: nothing is buffered.  In \<open>sim_breed\<close> the birth by animal 5
  makes the newborn 8 a resident of the cell at once, before animal 7 has had its turn;
  when \<open>Cell::breed\<close> of the cell returns, both newborns are residents; and the loop of
  \<open>Simulation::step\<close> inserts them into the population before it goes on to the next
  cell.
\<close>

theorem breeding_newborn_resident_at_once:
  "(case Animal_breed sim_breed 5 of
      Inl e \<Rightarrow> False
    | Inr (off, s1) \<Rightarrow> off = Some 8 \<and>
        map_option habitants (cells (geography s1) 0) = Some [5, 7, 8] \<and> animals s1 = [5, 7])
   \<and> (case Cell_breed sim_breed 0 [0] of
      Inl e \<Rightarrow> False
    | Inr (newBeasts, s1) \<Rightarrow> newBeasts = [8, 9] \<and>
        map_option habitants (cells (geography s1) 0) = Some [5, 7, 8, 9] \<and>
        animals s1 = [5, 7])
   \<and> (case bind_e (Cell_breed sim_breed 0 [0])
             (\<lambda>(newBeasts, s1). Inr (s1\<lparr>animals := fold set_insert newBeasts (animals s1)\<rparr>)) of
      Inl e \<Rightarrow> False
    | Inr s1 \<Rightarrow> animals s1 = [5, 7, 8, 9])"
  by (simp add: breed_eval)

lemma sim_breed_inv: "breed_inv sim_breed"
  by (auto simp: breed_inv_def sim_breed_def map22_def mk_cell_def herb_def mk_animal_def
      split: if_splits)

text \<open>The pass over the cells \<open>(0,0)\<close> and \<open>(1,0)\<close> of \<open>sim_breed\<close>: the two
  herbivores count 2, both give birth.\<close>

theorem breeding_counts_before_pass_witness:
  "breeding_pass sim_breed [0] [0, 65536] =
     breeding_pass_N (occupants sim_breed) sim_breed [0] [0, 65536]
   \<and> occupants sim_breed 0 0 = 2
   \<and> (case breeding_pass sim_breed [0] [0, 65536] of
        Inl e \<Rightarrow> False
      | Inr s' \<Rightarrow> animals s' = [5, 7, 8, 9] \<and>
          map_option habitants (cells (geography s') 0) = Some [5, 7, 8, 9])"
proof -
  have 1: "breeding_pass sim_breed [0] [0, 65536] =
     breeding_pass_N (occupants sim_breed) sim_breed [0] [0, 65536]"
    using breeding_counts_before_pass[OF sim_breed_inv, of "[0, 65536]" "[0]"] by simp
  have 2: "occupants sim_breed 0 0 = 2"
    by (simp add: occupants_def breed_eval)
  have c: "cells (geography sim_breed) 65536 = Some (mk_cell arch_J 1 0 [])"
    by (simp add: sim_breed_def map22_def)
  have 3: "(case breeding_pass sim_breed [0] [0, 65536] of
        Inl e \<Rightarrow> False
      | Inr s' \<Rightarrow> animals s' = [5, 7, 8, 9] \<and>
          map_option habitants (cells (geography s') 0) = Some [5, 7, 8, 9])"
    by (simp add: breed_eval c)
  from 1 2 3 show ?thesis by (intro conjI)
qed

end
